theory Spec2Isabelle
  imports Complex_Main
begin

section \<open>JavaScript values and errors\<close>

text \<open>
  The two classes verified here are \<open>Autodesk.Viewing.Model\<close> (page to model
  transforms, clip regions) and \<open>Autodesk.Viewing.Document\<close> (the manifest tree).
  An exception of the source is a value \<open>Inl e\<close> of the model.

  JavaScript numbers are IEEE doubles. Where the code only moves numbers around, or
  compares them with a constant, a number is given by its real value (\<^typ>\<open>real\<close>); the
  operations of the matrix class are parameters. Where the code computes with numbers
  and tests the result, in the clip regions, a number is a \<open>double\<close>: a finite double,
  given by its real value, an infinity, or NaN. The two zeros are one value; the
  comparison \<open>>=\<close>, the only test made of these numbers, does not tell them apart.
\<close>

datatype error = TypeError | RangeError | URIError | ReferenceError

datatype double = Fin real | PInf | NInf | NaN

text \<open>\<open>a >= b\<close>: false when either side is NaN.\<close>

fun dge :: "double \<Rightarrow> double \<Rightarrow> bool" where
  "dge (Fin a) (Fin b) = (a \<ge> b)"
| "dge NaN b = False"
| "dge a NaN = False"
| "dge PInf b = True"
| "dge a NInf = True"
| "dge a b = False"

text \<open>
  The subtraction and the multiplication of doubles round their result to a double.
  They belong to the language, not to the repository, and are parameters of the model.
\<close>

record float_ops =
  dsub :: "double \<Rightarrow> double \<Rightarrow> double"
  dmul :: "double \<Rightarrow> double \<Rightarrow> double"

text \<open>
  The arithmetic that the language prescribes is that of IEEE 754 binary64, rounding to
  nearest, ties to even: \<open>round_double r\<close> is the double nearest to the real \<open>r\<close>. A
  double has 53 significant bits; \<open>binade r\<close> is the exponent of the power of two at or
  below \<open>\<bar>r\<bar>\<close>, not less than the least exponent -1022 (below it lie the subnormal
  numbers, all multiples of \<open>2 powi - 1074\<close>), so that around \<open>r\<close> the doubles are the
  multiples of \<open>2 powi (binade r - 52)\<close>. A result that rounds to \<open>2 ^ 1024\<close> or beyond
  is an infinity. The general properties of the clip regions hold for every arithmetic;
  the examples are computed with this one.
\<close>

definition round_half_even :: "real \<Rightarrow> int" where
  "round_half_even r =
     (let f = \<lfloor>r\<rfloor> in
      if r - of_int f < 1 / 2 then f
      else if r - of_int f > 1 / 2 then f + 1
      else if even f then f else f + 1)"

definition binade :: "real \<Rightarrow> int" where
  "binade r = max \<lfloor>log 2 \<bar>r\<bar>\<rfloor> (- 1022)"

definition round_double :: "real \<Rightarrow> double" where
  "round_double r =
     (if r = 0 then Fin 0
      else
        (let q = 2 powi (binade r - 52);
             v = of_int (round_half_even (r / q)) * q
         in if \<bar>v\<bar> \<ge> 2 ^ 1024 then (if 0 < r then PInf else NInf) else Fin v))"

definition signed_infinity :: "bool \<Rightarrow> double" where
  "signed_infinity positive = (if positive then PInf else NInf)"

fun ieee_sub :: "double \<Rightarrow> double \<Rightarrow> double" where
  "ieee_sub (Fin a) (Fin b) = round_double (a - b)"
| "ieee_sub NaN b = NaN"
| "ieee_sub a NaN = NaN"
| "ieee_sub PInf PInf = NaN"
| "ieee_sub NInf NInf = NaN"
| "ieee_sub PInf b = PInf"
| "ieee_sub NInf b = NInf"
| "ieee_sub a PInf = NInf"
| "ieee_sub a NInf = PInf"

fun ieee_mul :: "double \<Rightarrow> double \<Rightarrow> double" where
  "ieee_mul (Fin a) (Fin b) = round_double (a * b)"
| "ieee_mul NaN b = NaN"
| "ieee_mul a NaN = NaN"
| "ieee_mul (Fin a) PInf = (if a = 0 then NaN else signed_infinity (0 < a))"
| "ieee_mul (Fin a) NInf = (if a = 0 then NaN else signed_infinity (a < 0))"
| "ieee_mul PInf (Fin b) = (if b = 0 then NaN else signed_infinity (0 < b))"
| "ieee_mul NInf (Fin b) = (if b = 0 then NaN else signed_infinity (b < 0))"
| "ieee_mul PInf PInf = PInf"
| "ieee_mul NInf NInf = PInf"
| "ieee_mul PInf NInf = NInf"
| "ieee_mul NInf PInf = NInf"

definition ieee_ops :: float_ops where
  "ieee_ops = \<lparr> dsub = ieee_sub, dmul = ieee_mul \<rparr>"

section \<open>Model: the 2-D payload\<close>

text \<open>
  A \<open>Matrix4\<close> is represented by its 16 \<open>elements\<close>. \<open>new THREE.Matrix4()\<close> is the
  identity.
\<close>

type_synonym mat4 = "real list"

definition Matrix4_identity :: mat4 where
  "Matrix4_identity = [1, 0, 0, 0,  0, 1, 0, 0,  0, 0, 1, 0,  0, 0, 0, 1]"

text \<open>
  The class \<open>LmvMatrix4\<close> is used by \<open>getPageToModelTransform\<close> but is not among the
  sources. Its operations are parameters of the model: the elements of a freshly
  constructed matrix, \<open>set\<close> (16 numbers in argument order), \<open>getInverse\<close> and
  \<open>multiply\<close>.
\<close>

record LmvMatrix4 =
  lmv_new :: mat4
  lmv_set :: "real list \<Rightarrow> mat4"
  lmv_getInverse :: "mat4 \<Rightarrow> mat4"
  lmv_multiply :: "mat4 \<Rightarrow> mat4 \<Rightarrow> mat4"

record page_dimensions_t =
  page_width :: real
  page_height :: real
  logical_width :: real
  logical_height :: real
  logical_offset_x :: real
  logical_offset_y :: real

record metadata_t =
  page_dimensions :: "page_dimensions_t option"

text \<open>
  Arrays of numbers are mutable objects: \<open>repairViewportMatrix\<close> writes into the array
  it is given. They live in a store, a list of arrays addressed by position; a viewport
  holds the address of its \<open>transform\<close> array. An address outside the store stands for
  a \<open>transform\<close> that is not an array.
\<close>

type_synonym addr = nat

record viewport =
  transform :: addr

record clip =
  contourCounts :: "nat list"
  points :: "double list"

text \<open>
  \<open>myData\<close> of a Model together with the array store. \<open>None\<close> is \<open>undefined\<close>; an
  entry \<open>None\<close> of \<open>viewports\<close> is a hole or \<open>null\<close>. \<open>viewportTransforms\<close> is
  the cache, a sparse array indexed by viewport id.
\<close>

record model_data =
  pageToModelTransform :: "mat4 option"
  metadata :: "metadata_t option"
  viewports :: "viewport option list option"
  viewportTransforms :: "(nat \<Rightarrow> mat4 option) option"
  clips :: "clip list"
  arrays :: "real list list"

subsection \<open>repairViewportMatrix\<close>

text \<open>
  One pass of a swap loop: \<open>temp = e[i]; e[i] = e[j]; e[j] = temp\<close>. The raw transform
  is 16 numbers; what JavaScript does with a shorter array (\<open>undefined\<close> entries) is
  outside the model.

  The entries are doubles, and so is the threshold: \<open>precision\<close> is the value of the
  double that the literal \<open>1e-3\<close> denotes, \<open>1152921504606847 / 2^60\<close>, which lies a
  little above \<open>1 / 1000\<close>. \<open>Math.abs\<close> and the comparisons of doubles are exact, so the
  tests of the repair are the same on doubles and on their real values.
\<close>

definition precision :: real where
  "precision = 1152921504606847 / 2 ^ 60"

definition swap_elems :: "nat \<Rightarrow> nat \<Rightarrow> real list \<Rightarrow> real list" where
  "swap_elems i j e = (let temp = e ! i in (e[i := e ! j])[j := temp])"

definition repairViewportMatrix :: "real list \<Rightarrow> real list" where
  "repairViewportMatrix elements =
     (let e = (if \<bar>elements ! 0\<bar> < precision then
                 (if \<bar>elements ! 4\<bar> > precision
                  then foldl (\<lambda>e i. swap_elems i (i + 4) e) elements [0 ..< 4]
                  else foldl (\<lambda>e i. swap_elems i (i + 8) e) elements [0 ..< 4])
               else elements)
      in if \<bar>e ! 5\<bar> < precision
         then foldl (\<lambda>e i. swap_elems i (i + 4) e) e [4 ..< 8]
         else e)"

subsection \<open>getPageToModelTransform\<close>

text \<open>\<open>xs[i]\<close> on a JavaScript array, followed by a truthiness test of the entry.\<close>

definition array_get :: "'a option list \<Rightarrow> int \<Rightarrow> 'a option" where
  "array_get xs i = (if 0 \<le> i \<and> nat i < length xs then xs ! nat i else None)"

text \<open>\<open>a.slice()\<close>: a fresh array with the same entries, at the end of the store.\<close>

definition array_slice :: "real list list \<Rightarrow> addr \<Rightarrow> (addr \<times> real list list) option" where
  "array_slice store a =
     (if a < length store then Some (length store, store @ [store ! a]) else None)"

text \<open>
  \<open>target.set(source)\<close> on a typed array: the source's entries overwrite the first
  entries of the target; a source longer than the target is a RangeError.
\<close>

definition typed_array_set :: "real list \<Rightarrow> real list \<Rightarrow> error + real list" where
  "typed_array_set target source =
     (if length target < length source then Inl RangeError
      else Inr (source @ drop (length source) target))"

text \<open>
  The result is the returned matrix or the exception, and the data after the call.
\<close>

definition getPageToModelTransform ::
  "LmvMatrix4 \<Rightarrow> model_data \<Rightarrow> int \<Rightarrow> (error + mat4) \<times> model_data" where
  "getPageToModelTransform L f2d vpId =
     (case pageToModelTransform f2d of
        Some t \<Rightarrow> (Inr t, f2d)
      | None \<Rightarrow>
     (case metadata f2d of
        None \<Rightarrow> (Inl TypeError, f2d)
      | Some md \<Rightarrow>
     (case viewports f2d of
        None \<Rightarrow> (Inl TypeError, f2d)
      | Some vps \<Rightarrow>
     (case array_get vps vpId of
        None \<Rightarrow> (Inr Matrix4_identity, f2d)
      | Some vp \<Rightarrow>
     (let cache = (case viewportTransforms f2d of None \<Rightarrow> (\<lambda>_. None) | Some c \<Rightarrow> c);
          f2d1 = f2d\<lparr>viewportTransforms := Some cache\<rparr>
      in
     (case cache (nat vpId) of
        Some cached \<Rightarrow> (Inr cached, f2d1)
      | None \<Rightarrow>
     (case page_dimensions md of
        None \<Rightarrow> (Inl TypeError, f2d1)
      | Some pd \<Rightarrow>
     (let pageToLogical = lmv_set L
            [logical_width pd / page_width pd, 0, 0, logical_offset_x pd,
             0, logical_height pd / page_height pd, 0, logical_offset_y pd,
             0, 0, 1, 0,
             0, 0, 0, 1]
      in
     (case array_slice (arrays f2d1) (transform vp) of
        None \<Rightarrow> (Inl TypeError, f2d1)
      | Some (modelToLogicalArray, store1) \<Rightarrow>
     (let store2 = store1[modelToLogicalArray :=
                     repairViewportMatrix (store1 ! modelToLogicalArray)];
          f2d2 = f2d1\<lparr>arrays := store2\<rparr>
      in
     (case typed_array_set (lmv_new L) (store2 ! modelToLogicalArray) of
        Inl err \<Rightarrow> (Inl err, f2d2)
      | Inr modelToLogical \<Rightarrow>
     (let logicalToModel = lmv_multiply L (lmv_getInverse L modelToLogical) pageToLogical
      in (Inr logicalToModel,
          f2d2\<lparr>viewportTransforms := Some (cache(nat vpId := Some logicalToModel))\<rparr>)
     ))))))))))))"

subsection \<open>The stored raw transform of a viewport\<close>

text \<open>
  What \<open>myData.viewports[vpId].transform\<close> holds: the array at the viewport's address.
\<close>

definition stored_transform :: "model_data \<Rightarrow> int \<Rightarrow> real list option" where
  "stored_transform f2d vpId =
     (case viewports f2d of
        None \<Rightarrow> None
      | Some vps \<Rightarrow>
     (case array_get vps vpId of
        None \<Rightarrow> None
      | Some vp \<Rightarrow>
          if transform vp < length (arrays f2d) then Some (arrays f2d ! transform vp)
          else None))"

text \<open>The same data with another array stored as the transform of viewport \<open>vpId\<close>.\<close>

definition with_transform :: "model_data \<Rightarrow> int \<Rightarrow> real list \<Rightarrow> model_data" where
  "with_transform f2d vpId m =
     (case viewports f2d of
        None \<Rightarrow> f2d
      | Some vps \<Rightarrow>
     (case array_get vps vpId of
        None \<Rightarrow> f2d
      | Some vp \<Rightarrow> f2d\<lparr>arrays := (arrays f2d)[transform vp := m]\<rparr>))"

text \<open>A 16-element array with its first two groups of four entries exchanged.\<close>

definition swap_rows_0_1 :: "real list \<Rightarrow> real list" where
  "swap_rows_0_1 m = take 4 (drop 4 m) @ take 4 m @ drop 8 m"

subsection \<open>LmvMatrix4 over the reals\<close>

text \<open>
  Modelled from the spec: the class \<open>LmvMatrix4\<close> (constructor, \<open>set\<close>, \<open>getInverse\<close>,
  \<open>multiply\<close>) is missing from the sources. The spec says the repaired matrix is
  inverted and the result is multiplied by the page to logical matrix, for column
  vectors. The instance below does that in exact arithmetic, with the \<open>elements\<close> in
  column-major order and \<open>set\<close> taking its arguments row by row, as in three.js; the
  inverse is the adjugate over the determinant, and the identity for a singular matrix.
  It is used only to evaluate concrete examples.
\<close>

definition entry :: "mat4 \<Rightarrow> nat \<Rightarrow> nat \<Rightarrow> real" where
  "entry e r c = e ! (4 * c + r)"

definition mat_of :: "(nat \<Rightarrow> nat \<Rightarrow> real) \<Rightarrow> mat4" where
  "mat_of f = map (\<lambda>k. f (k mod 4) (k div 4)) [0 ..< 16]"

definition det3 :: "(nat \<Rightarrow> nat \<Rightarrow> real) \<Rightarrow> nat list \<Rightarrow> nat list \<Rightarrow> real" where
  "det3 m rs cs =
     (case (rs, cs) of
        ([r0, r1, r2], [c0, c1, c2]) \<Rightarrow>
            m r0 c0 * (m r1 c1 * m r2 c2 - m r1 c2 * m r2 c1)
          - m r0 c1 * (m r1 c0 * m r2 c2 - m r1 c2 * m r2 c0)
          + m r0 c2 * (m r1 c0 * m r2 c1 - m r1 c1 * m r2 c0)
      | _ \<Rightarrow> 0)"

definition cofactor :: "mat4 \<Rightarrow> nat \<Rightarrow> nat \<Rightarrow> real" where
  "cofactor e i j =
     (- 1) ^ (i + j) *
     det3 (entry e) (filter (\<lambda>r. r \<noteq> i) [0 ..< 4]) (filter (\<lambda>c. c \<noteq> j) [0 ..< 4])"

definition det4 :: "mat4 \<Rightarrow> real" where
  "det4 e = (\<Sum>j \<leftarrow> [0 ..< 4]. entry e 0 j * cofactor e 0 j)"

definition real_getInverse :: "mat4 \<Rightarrow> mat4" where
  "real_getInverse e =
     (if det4 e = 0 then Matrix4_identity else mat_of (\<lambda>r c. cofactor e c r / det4 e))"

definition real_multiply :: "mat4 \<Rightarrow> mat4 \<Rightarrow> mat4" where
  "real_multiply a b = mat_of (\<lambda>r c. \<Sum>k \<leftarrow> [0 ..< 4]. entry a r k * entry b k c)"

definition real_set :: "real list \<Rightarrow> mat4" where
  "real_set ns = mat_of (\<lambda>r c. ns ! (4 * r + c))"

definition LmvMatrix4_real :: LmvMatrix4 where
  "LmvMatrix4_real =
     \<lparr> lmv_new = Matrix4_identity, lmv_set = real_set,
       lmv_getInverse = real_getInverse, lmv_multiply = real_multiply \<rparr>"

subsection \<open>Clip regions\<close>

text \<open>
  A decoded point is \<open>{x: points[j], y: points[j + 1]}\<close>; with an odd number of entries
  the last \<open>y\<close> is \<open>undefined\<close>, which compares and subtracts like NaN, and is
  represented by it.
\<close>

type_synonym pt = "double \<times> double"

text \<open>
  \<open>(vtx1Y - y) * (vtx0X - vtx1X) >= (vtx1X - x) * (vtx0Y - vtx1Y)\<close>
\<close>

definition edge_test ::
  "float_ops \<Rightarrow> double \<Rightarrow> double \<Rightarrow> double \<Rightarrow> double \<Rightarrow> double \<Rightarrow> double \<Rightarrow> bool" where
  "edge_test A x y vtx0X vtx0Y vtx1X vtx1Y =
     dge (dmul A (dsub A vtx1Y y) (dsub A vtx0X vtx1X))
         (dmul A (dsub A vtx1X x) (dsub A vtx0Y vtx1Y))"

text \<open>\<open>pts[i].x\<close>: a TypeError when \<open>pts[i]\<close> is \<open>undefined\<close>.\<close>

definition pts_at :: "pt list \<Rightarrow> nat \<Rightarrow> error + pt" where
  "pts_at pts i = (if i < length pts then Inr (pts ! i) else Inl TypeError)"

fun contour_loop ::
  "float_ops \<Rightarrow> double \<Rightarrow> double \<Rightarrow> pt list \<Rightarrow> nat list \<Rightarrow> double \<Rightarrow> double \<Rightarrow> bool \<Rightarrow> bool \<Rightarrow>
   error + bool" where
  "contour_loop A x y pts [] vtx0X vtx0Y yflag0 inside_flag = Inr inside_flag"
| "contour_loop A x y pts (c # cntr) vtx0X vtx0Y yflag0 inside_flag =
     (case pts_at pts c of
        Inl err \<Rightarrow> Inl err
      | Inr (vtx1X, vtx1Y) \<Rightarrow>
          (let yflag1 = dge vtx1Y y;
               inside_flag1 =
                 (if yflag0 \<noteq> yflag1 then
                    (if edge_test A x y vtx0X vtx0Y vtx1X vtx1Y = yflag1
                     then \<not> inside_flag else inside_flag)
                  else inside_flag)
           in contour_loop A x y pts cntr vtx1X vtx1Y yflag1 inside_flag1))"

text \<open>
  \<open>pts[cntr[cntr.length - 1]].x\<close> is a TypeError for an empty contour and for an index
  past the points.
\<close>

definition pointInContour ::
  "float_ops \<Rightarrow> double \<Rightarrow> double \<Rightarrow> nat list \<Rightarrow> pt list \<Rightarrow> error + bool" where
  "pointInContour A x y cntr pts =
     (if cntr = [] then Inl TypeError
      else case pts_at pts (last cntr) of
             Inl err \<Rightarrow> Inl err
           | Inr (vtx0X, vtx0Y) \<Rightarrow>
               contour_loop A x y pts cntr vtx0X vtx0Y (dge vtx0Y y) False)"

fun polygon_loop ::
  "float_ops \<Rightarrow> double \<Rightarrow> double \<Rightarrow> nat list list \<Rightarrow> pt list \<Rightarrow> bool \<Rightarrow> error + bool" where
  "polygon_loop A x y [] pts inside = Inr inside"
| "polygon_loop A x y (cntr # contours) pts inside =
     (case pointInContour A x y cntr pts of
        Inl err \<Rightarrow> Inl err
      | Inr b \<Rightarrow> polygon_loop A x y contours pts (if b then \<not> inside else inside))"

definition pointInPolygon ::
  "float_ops \<Rightarrow> double \<Rightarrow> double \<Rightarrow> nat list list \<Rightarrow> pt list \<Rightarrow> error + bool" where
  "pointInPolygon A x y contours pts = polygon_loop A x y contours pts False"

text \<open>The two loops that reorganize the contour data of a clip.\<close>

fun reorganize_contours :: "nat list \<Rightarrow> nat \<Rightarrow> nat list list" where
  "reorganize_contours [] index = []"
| "reorganize_contours (n # counts) index =
     [index ..< index + n] # reorganize_contours counts (index + n)"

fun reorganize_points :: "double list \<Rightarrow> pt list" where
  "reorganize_points [] = []"
| "reorganize_points [a] = [(a, NaN)]"
| "reorganize_points (a # b # ps) = (a, b) # reorganize_points ps"

fun clip_loop ::
  "float_ops \<Rightarrow> clip list \<Rightarrow> pt \<Rightarrow> int \<Rightarrow> nat list \<Rightarrow> nat list \<Rightarrow> error + nat list" where
  "clip_loop A cl point vpId [] clipIds = Inr clipIds"
| "clip_loop A cl point vpId (i # is) clipIds =
     (if int i = vpId then clip_loop A cl point vpId is clipIds
      else
        (let contours = reorganize_contours (contourCounts (cl ! i)) 0;
             pts = reorganize_points (points (cl ! i))
         in case pointInPolygon A (fst point) (snd point) contours pts of
              Inl err \<Rightarrow> Inl err
            | Inr inside \<Rightarrow>
                clip_loop A cl point vpId is (if inside then clipIds @ [i] else clipIds)))"

definition pointInClip :: "float_ops \<Rightarrow> model_data \<Rightarrow> pt \<Rightarrow> int \<Rightarrow> error + nat list" where
  "pointInClip A f2d point vpId =
     clip_loop A (clips f2d) point vpId [1 ..< length (clips f2d)] []"

subsection \<open>Notions used to state the properties of the clips\<close>

text \<open>
  A clip whose contours are not empty and whose points cover every contour index.
\<close>

definition clip_ok :: "clip \<Rightarrow> bool" where
  "clip_ok c =
     (list_all (\<lambda>n. 0 < n) (contourCounts c) \<and>
      sum_list (contourCounts c) \<le> length (reorganize_points (points c)))"


text \<open>
  The region of a clip, as geometry. The points of a clip are its vertices, two numbers
  each; the contours are consecutive runs of the vertices, of the lengths given by
  \<open>contourCounts\<close>. A contour is a closed polygon: its edges join each vertex to the next
  one, and the last vertex to the first.
\<close>

type_synonym point = "real \<times> real"


definition real_of_double :: "double \<Rightarrow> real" where
  "real_of_double d = (case d of Fin r \<Rightarrow> r | _ \<Rightarrow> 0)"

definition vertices :: "double list \<Rightarrow> point list" where
  "vertices ps =
     map (\<lambda>i. (real_of_double (ps ! (2 * i)), real_of_double (ps ! (2 * i + 1))))
       [0 ..< length ps div 2]"

fun split_contours :: "nat list \<Rightarrow> point list \<Rightarrow> point list list" where
  "split_contours [] vs = []"
| "split_contours (n # counts) vs = take n vs # split_contours counts (drop n vs)"

definition region :: "clip \<Rightarrow> point list list" where
  "region c = split_contours (contourCounts c) (vertices (points c))"

definition polygon_edges :: "point list \<Rightarrow> (point \<times> point) list" where
  "polygon_edges vs = zip (last vs # vs) vs"

text \<open>
  The even-odd rule. \<open>crossing_x v0 v1 y\<close> is the abscissa at which the line through
  \<open>v0\<close> and \<open>v1\<close> meets the horizontal line of height \<open>y\<close>. An edge crosses the ray that
  leaves \<open>p\<close> in the direction of +X when its ends lie on opposite sides of the
  horizontal line through \<open>p\<close> (an end on the line counts as above it) and the edge
  meets that line to the right of \<open>p\<close>; when it meets it at \<open>p\<close> itself, which then lies
  on the boundary, the edge counts if it ends on the upper side. The region contains
  \<open>p\<close> when an odd number of the edges of its contours cross the ray.
\<close>

definition crossing_x :: "point \<Rightarrow> point \<Rightarrow> real \<Rightarrow> real" where
  "crossing_x v0 v1 y = fst v0 + (y - snd v0) * (fst v1 - fst v0) / (snd v1 - snd v0)"

definition ray_crosses :: "point \<Rightarrow> point \<times> point \<Rightarrow> bool" where
  "ray_crosses p e =
     (case e of (v0, v1) \<Rightarrow>
        ((snd v0 \<ge> snd p) \<noteq> (snd v1 \<ge> snd p)) \<and>
        (fst p < crossing_x v0 v1 (snd p) \<or>
         (fst p = crossing_x v0 v1 (snd p) \<and> snd v1 \<ge> snd p)))"

definition crossings :: "point list list \<Rightarrow> point \<Rightarrow> nat" where
  "crossings R p = length (filter (ray_crosses p) (concat (map polygon_edges R)))"

definition region_contains :: "point list list \<Rightarrow> point \<Rightarrow> bool" where
  "region_contains R p = odd (crossings R p)"



subsection \<open>Example data\<close>

definition example_transform :: "real list" where
  "example_transform = [precision, 0, 0, 0,  0, 1, 0, 0,  0, 0, 1, 0,  0, 0, 0, 1]"

definition example_f2d :: model_data where
  "example_f2d =
     \<lparr> pageToModelTransform = None,
       metadata = Some \<lparr> page_dimensions = Some
         \<lparr> page_width = 1, page_height = 1, logical_width = 1, logical_height = 1,
           logical_offset_x = 0, logical_offset_y = 0 \<rparr> \<rparr>,
       viewports = Some [None, Some \<lparr> transform = 0 \<rparr>],
       viewportTransforms = None,
       clips = [\<lparr> contourCounts = [], points = [] \<rparr>,
                \<lparr> contourCounts = [4],
                  points = [Fin 0, Fin 0, Fin 1, Fin 0, Fin 1, Fin 1, Fin 0, Fin 1] \<rparr>,
                \<lparr> contourCounts = [4],
                  points = [Fin 5, Fin 5, Fin 6, Fin 5, Fin 6, Fin 6, Fin 5, Fin 6] \<rparr>,
                \<lparr> contourCounts = [4],
                  points = [Fin 0, Fin 0, Fin 1, Fin 0, Fin 1, Fin 1, Fin 0, Fin 1] \<rparr>],
       arrays = [example_transform] \<rparr>"

text \<open>
  Data whose clip 1 is a triangle with an edge that passes the origin on its left, at a
  distance far below the spacing of the doubles near 1. Its coordinates are doubles.
\<close>

definition rounding_f2d :: model_data where
  "rounding_f2d =
     example_f2d\<lparr> clips :=
       [\<lparr> contourCounts = [], points = [] \<rparr>,
        \<lparr> contourCounts = [3],
          points = [Fin (- (1 / 2 ^ 52)), Fin (- (1 / 2 ^ 52)),
                    Fin 1, Fin (1 + 1 / 2 ^ 52),
                    Fin (- 1), Fin 1] \<rparr>] \<rparr>"


definition example_transform2 :: "real list" where
  "example_transform2 = [2, 0, 0, 0,  0, 4, 0, 0,  0, 0, 1, 0,  3, 5, 0, 1]"

section \<open>Document: the manifest tree\<close>

subsection \<open>Strings\<close>

text \<open>
  JavaScript strings are modelled as \<^typ>\<open>string\<close>. \<open>occurrences s sub\<close> lists the
  positions \<open>k\<close> at which \<open>sub\<close> occurs in \<open>s\<close>, in ascending order; \<open>indexOf\<close> is the
  first one, \<open>lastIndexOf\<close> the last one, and \<open>-1\<close> stands for none.
\<close>

definition occurrences :: "string \<Rightarrow> string \<Rightarrow> nat list" where
  "occurrences s sub =
     filter (\<lambda>k. take (length sub) (drop k s) = sub) [0 ..< Suc (length s)]"

definition indexOf :: "string \<Rightarrow> string \<Rightarrow> int" where
  "indexOf s sub = (case occurrences s sub of [] \<Rightarrow> - 1 | k # _ \<Rightarrow> int k)"

definition lastIndexOf :: "string \<Rightarrow> string \<Rightarrow> int" where
  "lastIndexOf s sub = (case rev (occurrences s sub) of [] \<Rightarrow> - 1 | k # _ \<Rightarrow> int k)"

text \<open>
  \<open>s.substr(start, length)\<close>; \<open>None\<close> is a missing \<open>length\<close>. A negative \<open>start\<close>
  counts from the end of the string.
\<close>

definition substr :: "string \<Rightarrow> int \<Rightarrow> int option \<Rightarrow> string" where
  "substr s start len =
     (let n = int (length s);
          intStart = (if start < 0 then max (n + start) 0 else start);
          resultLength = (case len of
                            None \<Rightarrow> n - intStart
                          | Some l \<Rightarrow> min (max l 0) (n - intStart))
      in if resultLength \<le> 0 then [] else take (nat resultLength) (drop (nat intStart) s))"

text \<open>
  \<open>s.replace(pattern, replacement)\<close> for a string pattern: the first occurrence is
  replaced. (Both calls of the source pass the empty string as replacement.)
\<close>

definition replace_first :: "string \<Rightarrow> string \<Rightarrow> string \<Rightarrow> string" where
  "replace_first s pat rep =
     (case occurrences s pat of
        [] \<Rightarrow> s
      | k # _ \<Rightarrow> take k s @ rep @ drop (k + length pat) s)"

subsection \<open>Manifest nodes\<close>

text \<open>
  Primitive values, as they occur in a property filter and in the properties of a node
  that the code does not name. \<open>===\<close> on primitives is equality, except that NaN differs
  from itself.
\<close>

datatype prim = JUndefined | JNull | JBool bool | JNum real | JNaN | JStr string

definition strict_eq :: "prim \<Rightarrow> prim \<Rightarrow> bool" where
  "strict_eq a b = (a = b \<and> a \<noteq> JNaN)"

record message =
  msg_type :: string
  msg_text :: string

text \<open>
  A node of the manifest is a JSON object. The fields the code reads by name are typed
  as the manifest has them (strings, numbers, an array of numbers, an array of
  messages), \<open>None\<close> for a missing field; \<open>other\<close> holds every further property with a
  primitive value. \<open>children\<close> is the array of child nodes, empty when the field is
  missing; a \<open>null\<close> child is excluded, since the constructor's \<open>traverse\<close> dereferences
  every child.
\<close>

record item_fields =
  item_type :: "string option"
  role :: "string option"
  mime :: "string option"
  guid :: "string option"
  urn :: "string option"
  messages :: "message list option"
  tileSize :: "real option"
  resolution :: "real list option"
  paperWidth :: "real option"
  paperHeight :: "real option"
  paperUnits :: "string option"
  max_level :: "real option"
  other :: "(string \<times> prim) list"

datatype item = Item (attrs: item_fields) (children: "item list")

text \<open>
  \<open>item[p]\<close> for a property with a primitive value, \<open>None\<close> otherwise. The properties
  whose value is an object (\<open>children\<close>, \<open>messages\<close>, \<open>resolution\<close>, \<open>parent\<close>, and what
  every object inherits) are never \<open>===\<close> to a primitive, so for a filter of primitive
  values they count as missing.
\<close>

definition item_prop :: "item \<Rightarrow> string \<Rightarrow> prim option" where
  "item_prop it p =
     (let f = attrs it in
      if p = ''type'' then map_option JStr (item_type f)
      else if p = ''role'' then map_option JStr (role f)
      else if p = ''mime'' then map_option JStr (mime f)
      else if p = ''guid'' then map_option JStr (guid f)
      else if p = ''urn'' then map_option JStr (urn f)
      else if p = ''tileSize'' then map_option JNum (tileSize f)
      else if p = ''paperWidth'' then map_option JNum (paperWidth f)
      else if p = ''paperHeight'' then map_option JNum (paperHeight f)
      else if p = ''paperUnits'' then map_option JStr (paperUnits f)
      else if p = ''max_level'' then map_option JNum (max_level f)
      else if p \<in> {''children'', ''messages'', ''resolution'', ''parent''} then None
      else map_of (other f) p)"

text \<open>A guid used as a property key: \<open>undefined\<close> becomes the key \<open>"undefined"\<close>.\<close>

definition guid_key :: "item \<Rightarrow> string" where
  "guid_key it = (case guid (attrs it) of None \<Rightarrow> ''undefined'' | Some g \<Rightarrow> g)"

text \<open>
  A node is referred to by its path, the child indices from the root. \<open>item_at\<close>
  dereferences a path.
\<close>

fun item_at :: "item \<Rightarrow> nat list \<Rightarrow> item option" where
  "item_at it [] = Some it"
| "item_at it (i # p) =
     (if i < length (children it) then item_at (children it ! i) p else None)"

subsection \<open>Globals and the document object\<close>

text \<open>
  What the code reads from its environment: \<open>Global.offline\<close>,
  \<open>Global.offlineResourcePrefix\<close>, \<open>VIEWING_URL\<close>, \<open>ViewingService.OSS_PREFIX\<close>, the
  built-in \<open>decodeURIComponent\<close> (which can raise a URIError),
  \<open>LeafletLoader.computeLevelOffset\<close>, and the global variable \<open>parent\<close> that
  \<open>getMessages\<close> reads: \<open>None\<close> when no such global exists, otherwise the object it is
  bound to, a manifest node or some other object (in a browser, the parent window).
\<close>

datatype object_ref = Node "nat list" | OtherObject

record globals =
  offline :: bool
  offlineResourcePrefix :: string
  VIEWING_URL :: string
  OSS_PREFIX :: string
  decodeURIComponent :: "string \<Rightarrow> error + string"
  computeLevelOffset :: "real \<Rightarrow> real"
  global_parent :: "object_ref option"

text \<open>
  \<open>myViewGeometry\<close> and \<open>myNumViews\<close> are plain objects (\<open>{}\<close>) used as maps from guid
  keys. A plain object inherits the properties of \<open>Object.prototype\<close>, taken here as the
  language defines it, with nothing added or frozen by another script:

    \<^item> reading a key that the object does not own gives \<open>undefined\<close>, unless the key is one
      of \<open>Object_prototype_keys\<close>: then it gives the inherited value, a function, or for
      \<open>__proto__\<close> the object \<open>Object.prototype\<close> itself;

    \<^item> assigning to a key creates or overwrites an own property, unless the key is
      \<open>__proto__\<close>: that runs the inherited setter, which stores no property, and ignores
      a value that is not an object, such as a number.

  \<open>object_set\<close> is the assignment of a number.
\<close>

definition Object_prototype_keys :: "string list" where
  "Object_prototype_keys =
     [''constructor'', ''hasOwnProperty'', ''isPrototypeOf'', ''propertyIsEnumerable'',
      ''toLocaleString'', ''toString'', ''valueOf'', ''__defineGetter__'',
      ''__defineSetter__'', ''__lookupGetter__'', ''__lookupSetter__'', ''__proto__'']"

definition object_set :: "(string \<Rightarrow> nat option) \<Rightarrow> string \<Rightarrow> nat \<Rightarrow> (string \<Rightarrow> nat option)" where
  "object_set obj k v = (if k = ''__proto__'' then obj else obj(k := Some v))"

text \<open>
  What \<open>getNumViews\<close> can return: a number, or the value that \<open>Object.prototype\<close> has
  under the given key.
\<close>

datatype num_views = Count nat | Inherited string

text \<open>
  The fields of a Document. \<open>myNumViews\<close> holds the own properties of that object.
  \<open>myViewGeometry\<close> holds the own properties too, which is all that the code reads of
  it as long as no guid of a node is among \<open>Object_prototype_keys\<close>; the properties of
  \<open>getNumViews\<close> do not depend on it. \<open>parent\<close> holds the back-references that
  \<open>traverse\<close> stores in the nodes.
\<close>

record document =
  myPath :: string
  myData :: "item option"
  myViewGeometry :: "string \<Rightarrow> item option"
  myNumViews :: "string \<Rightarrow> nat option"
  myPropertyDb :: "string option"
  acmSessionId :: "string option"
  parent :: "nat list \<Rightarrow> nat list option"

subsection \<open>The constructor\<close>

text \<open>The loop over the children of a geometry node.\<close>

definition count_views :: "item \<Rightarrow> document \<times> nat \<Rightarrow> item \<Rightarrow> document \<times> nat" where
  "count_views it acc child =
     (case acc of (self, viewCount) \<Rightarrow>
        if item_type (attrs child) = Some ''view''
        then (self\<lparr>myViewGeometry := (myViewGeometry self)(guid_key child := Some it)\<rparr>,
              viewCount + 1)
        else (self, viewCount))"

fun annotateViews :: "globals \<Rightarrow> item \<Rightarrow> document \<Rightarrow> document" where
  "annotateViews G (Item f cs) self =
     (let childCount = length cs in
      if item_type f = Some ''geometry'' \<and> childCount \<noteq> 0 then
        (case foldl (count_views (Item f cs)) (self, 0) cs of
           (self1, viewCount) \<Rightarrow>
             self1\<lparr>myNumViews := object_set (myNumViews self1) (guid_key (Item f cs)) viewCount\<rparr>)
      else if mime f = Some ''application/autodesk-db'' \<and> urn f \<noteq> None \<and> urn f \<noteq> Some [] then
        (case urn f of
           None \<Rightarrow> self
         | Some u \<Rightarrow>
             if indexOf u (OSS_PREFIX G) = 0
             then self\<lparr>myPropertyDb := Some (substr u 0 (Some (lastIndexOf u ''%2F'' + 3)))\<rparr>
             else self\<lparr>myPropertyDb := Some (substr u 0 (Some (lastIndexOf u ''/'' + 1)))\<rparr>)
      else if 0 < childCount then foldl (\<lambda>s child. annotateViews G child s) self cs
      else self)"

text \<open>
  \<open>traverse\<close> stores in every child a reference to its parent; \<open>traverse_children\<close> is
  its loop, at child index \<open>i\<close>.
\<close>

fun traverse ::
  "item \<Rightarrow> nat list \<Rightarrow> (nat list \<Rightarrow> nat list option) \<Rightarrow> (nat list \<Rightarrow> nat list option)"
and traverse_children ::
  "item list \<Rightarrow> nat \<Rightarrow> nat list \<Rightarrow> (nat list \<Rightarrow> nat list option) \<Rightarrow> (nat list \<Rightarrow> nat list option)"
where
  "traverse (Item f cs) p par = traverse_children cs 0 p par"
| "traverse_children [] i p par = par"
| "traverse_children (c # cs) i p par =
     traverse_children cs (i + 1) p (traverse c (p @ [i]) (par(p @ [i] := Some p)))"

definition Document :: "globals \<Rightarrow> item option \<Rightarrow> string \<Rightarrow> string option \<Rightarrow> document" where
  "Document G dataJSON path acmsession =
     (let self = \<lparr> myPath = path, myData = dataJSON,
                   myViewGeometry = (\<lambda>_. None), myNumViews = (\<lambda>_. None),
                   myPropertyDb = None, acmSessionId = acmsession, parent = (\<lambda>_. None) \<rparr>
      in case dataJSON of
           None \<Rightarrow> self
         | Some rootItem \<Rightarrow>
             (let self1 = annotateViews G rootItem self
              in self1\<lparr>parent := traverse rootItem [] (parent self1)\<rparr>))"

text \<open>
  \<open>this.myNumViews[item.guid] || 0\<close>: an own count \<open>n\<close> gives \<open>n\<close> (also when it is 0); an
  inherited value is an object, hence truthy, and is returned as it is; \<open>undefined\<close>
  gives 0.
\<close>

definition getNumViews :: "document \<Rightarrow> item \<Rightarrow> num_views" where
  "getNumViews self it =
     (case myNumViews self (guid_key it) of
        Some n \<Rightarrow> Count n
      | None \<Rightarrow>
          if guid_key it \<in> set Object_prototype_keys then Inherited (guid_key it)
          else Count 0)"

definition getViewGeometry :: "document \<Rightarrow> item \<Rightarrow> item option" where
  "getViewGeometry self it = myViewGeometry self (guid_key it)"

definition getPropertyDbPath :: "document \<Rightarrow> string option" where
  "getPropertyDbPath self = myPropertyDb self"

subsection \<open>getFullPath\<close>

text \<open>
  The \<open>urn\<close> is a string or \<open>undefined\<close> (\<open>None\<close>); \<open>!urn\<close> holds for \<open>undefined\<close>
  and for the empty string.
\<close>

definition getFullPath :: "globals \<Rightarrow> document \<Rightarrow> string option \<Rightarrow> error + string option" where
  "getFullPath G self u =
     (case u of
        None \<Rightarrow> Inr None
      | Some s \<Rightarrow>
          if s = [] then Inr (Some s)
          else if offline G then
            (case decodeURIComponent G (offlineResourcePrefix G) of
               Inl err \<Rightarrow> Inl err
             | Inr pre \<Rightarrow> Inr (Some (pre @ substr s (indexOf s ''/'') None)))
          else if indexOf s ''urn'' = 0 then
            Inr (Some (VIEWING_URL G @ ''/items/'' @ s))
          else if indexOf s ''$file$'' = 0 \<and> indexOf (myPath self) ''/bubble.json'' \<noteq> - 1 then
            Inr (Some (replace_first (myPath self) ''/bubble.json'' [] @
                       replace_first s ''$file$'' []))
          else Inr (Some s))"

subsection \<open>getSubItemsWithProperties\<close>

text \<open>
  A filter is the list of the keys of \<open>properties\<close> with their values.
\<close>

fun hasProperties :: "item \<Rightarrow> (string \<times> prim) list \<Rightarrow> bool" where
  "hasProperties it [] = True"
| "hasProperties it ((p, v) # properties) =
     (case item_prop it p of
        None \<Rightarrow> False
      | Some w \<Rightarrow> if \<not> strict_eq v w then False else hasProperties it properties)"

fun getSubItems :: "item \<Rightarrow> (string \<times> prim) list \<Rightarrow> bool \<Rightarrow> item list" where
  "getSubItems (Item f cs) properties recursive =
     foldl (\<lambda>subItems child.
              (let subItems1 = (if hasProperties child properties
                                then subItems @ [child] else subItems)
               in if recursive
                  then subItems1 @ getSubItems child properties recursive
                  else subItems1))
           [] cs"

definition getSubItemsWithProperties ::
  "item option \<Rightarrow> (string \<times> prim) list \<Rightarrow> bool \<Rightarrow> item list" where
  "getSubItemsWithProperties it properties recursive =
     (case it of None \<Rightarrow> [] | Some i \<Rightarrow> getSubItems i properties recursive)"

subsection \<open>getLeafletParams and getViewablePath\<close>

text \<open>
  The fields of \<open>outLoadOptions\<close> that \<open>getLeafletParams\<close> writes; \<open>None\<close> is a field
  that is missing or \<open>undefined\<close>. \<open>max_level - levelOffset\<close> is NaN when \<open>max_level\<close>
  is missing.
\<close>

datatype jsnum = Number real | NotANumber

record load_options =
  opt_urlPattern :: "string option"
  opt_tileSize :: "real option"
  opt_texWidth :: "real option"
  opt_texHeight :: "real option"
  opt_paperWidth :: "real option"
  opt_paperHeight :: "real option"
  opt_paperUnits :: "string option"
  opt_levelOffset :: "real option"
  opt_maxLevel :: "jsnum option"

text \<open>\<open>a[i]\<close> on an array of numbers, \<open>undefined\<close> past its end.\<close>

definition nth_opt :: "'a list \<Rightarrow> nat \<Rightarrow> 'a option" where
  "nth_opt xs i = (if i < length xs then Some (xs ! i) else None)"

text \<open>
  The result is the exception raised, if any, and \<open>outLoadOptions\<close> as it is then.
  \<open>leafletItem.resolution[0]\<close> is a TypeError when \<open>resolution\<close> is missing.
\<close>

definition getLeafletParams ::
  "globals \<Rightarrow> load_options \<Rightarrow> item \<Rightarrow> item \<Rightarrow> error option \<times> load_options" where
  "getLeafletParams G outLoadOptions geomItem leafletItem =
     (let l = attrs leafletItem;
          ts = (case tileSize l of None \<Rightarrow> 512 | Some t \<Rightarrow> if t \<noteq> 0 then t else 512);
          o1 = outLoadOptions\<lparr> opt_urlPattern := urn l, opt_tileSize := Some ts \<rparr>
      in case resolution l of
           None \<Rightarrow> (Some TypeError, o1)
         | Some res \<Rightarrow>
             (let levelOffset = computeLevelOffset G ts;
                  o2 = o1\<lparr> opt_texWidth := nth_opt res 0,
                            opt_texHeight := nth_opt res 1,
                            opt_paperWidth := paperWidth l,
                            opt_paperHeight := paperHeight l,
                            opt_paperUnits := paperUnits l,
                            opt_levelOffset := Some levelOffset \<rparr>
              in case getSubItemsWithProperties (Some geomItem)
                        [(''role'', JStr ''leaflet-zip'')] False of
                   [] \<Rightarrow> (None, o2)
                 | zipItem # _ \<Rightarrow>
                     (None, o2\<lparr> opt_maxLevel := Some
                        (case max_level (attrs zipItem) of
                           None \<Rightarrow> NotANumber
                         | Some m \<Rightarrow> Number (m - levelOffset)) \<rparr>)))"

text \<open>
  The end of \<open>getViewablePath\<close> for a geometry item: the full path of the first item
  found, or the empty string.
\<close>

definition first_path :: "globals \<Rightarrow> document \<Rightarrow> item list \<Rightarrow> error + string option" where
  "first_path G self items =
     (case items of
        [] \<Rightarrow> Inr (Some [])
      | i0 # _ \<Rightarrow> getFullPath G self (urn (attrs i0)))"

text \<open>
  The branch of \<open>getViewablePath\<close> for an item of type \<open>geometry\<close>. The result is the
  returned path or the exception, and \<open>outLoadOptions\<close> after the call.
\<close>

definition geometryViewablePath ::
  "globals \<Rightarrow> document \<Rightarrow> item \<Rightarrow> load_options option \<Rightarrow>
   (error + string option) \<times> load_options option" where
  "geometryViewablePath G self it outLoadOptions =
     (if role (attrs it) = Some ''3d'' then
        (first_path G self
           (getSubItemsWithProperties (Some it) [(''mime'', JStr ''application/autodesk-svf'')] False),
         outLoadOptions)
      else if role (attrs it) = Some ''2d'' then
        (let items = getSubItemsWithProperties (Some it) [(''role'', JStr ''leaflet'')] False;
             extracted = (case (items, outLoadOptions) of
                            (leaflet # _, Some out) \<Rightarrow>
                              (case getLeafletParams G out it leaflet of
                                 (err, out1) \<Rightarrow> (err, Some out1))
                          | _ \<Rightarrow> (None, outLoadOptions))
         in case extracted of
              (Some err, out1) \<Rightarrow> (Inl err, out1)
            | (None, out1) \<Rightarrow>
                (let items1 = (if length items = 0
                               then getSubItemsWithProperties (Some it)
                                      [(''mime'', JStr ''application/autodesk-f2d'')] False
                               else items);
                     items2 = (if length items1 = 0
                               then getSubItemsWithProperties (Some it)
                                      [(''role'', JStr ''tileRoot'')] True
                               else items1)
                 in (first_path G self items2, out1)))
      else (first_path G self [], outLoadOptions))"

text \<open>
  For a view item the function calls itself on the geometry item found in
  \<open>myViewGeometry\<close>, without load options. The result is \<open>None\<close> if the calls never end.
\<close>

partial_function (option) getViewablePath ::
  "globals \<Rightarrow> document \<Rightarrow> item \<Rightarrow> load_options option \<Rightarrow>
   ((error + string option) \<times> load_options option) option" where
  "getViewablePath G self it outLoadOptions =
     (if item_type (attrs it) = Some ''geometry'' then
        Some (geometryViewablePath G self it outLoadOptions)
      else if item_type (attrs it) = Some ''view'' then
        (case getViewGeometry self it of
           Some geometryItem \<Rightarrow>
             Option.bind (getViewablePath G self geometryItem None)
               (\<lambda>r. Some (fst r, outLoadOptions))
         | None \<Rightarrow> Some (Inr (Some []), outLoadOptions))
      else Some (Inr (Some []), outLoadOptions))"

subsection \<open>getMessages\<close>

definition node_at :: "document \<Rightarrow> nat list \<Rightarrow> item option" where
  "node_at self p = (case myData self of None \<Rightarrow> None | Some rootItem \<Rightarrow> item_at rootItem p)"

text \<open>
  The \<open>while (current)\<close> loop. \<open>current\<close> is a reference to a node or \<open>undefined\<close>; a
  path that denotes no node counts as \<open>undefined\<close>. The test \<open>parent === root\<close> reads
  the global variable \<open>parent\<close>: a ReferenceError when there is none, and true only when
  that global is bound to the root node. The result is \<open>None\<close> if the loop never ends.
\<close>

partial_function (option) getMessages_loop ::
  "globals \<Rightarrow> document \<Rightarrow> bool \<Rightarrow> nat list option \<Rightarrow> message list \<Rightarrow>
   (error + message list) option" where
  "getMessages_loop G self excludeGlobal current msgs =
     (case Option.bind current (node_at self) of
        None \<Rightarrow> Some (Inr msgs)
      | Some it \<Rightarrow>
          if excludeGlobal \<and> global_parent G = None then Some (Inl ReferenceError)
          else if excludeGlobal \<and> global_parent G = Some (Node []) then Some (Inr msgs)
          else getMessages_loop G self excludeGlobal (Option.bind current (parent self))
                 (msgs @ (case messages (attrs it) of None \<Rightarrow> [] | Some ms \<Rightarrow> ms)))"

definition getMessages ::
  "globals \<Rightarrow> document \<Rightarrow> nat list option \<Rightarrow> bool \<Rightarrow> (error + message list) option" where
  "getMessages G self it excludeGlobal =
     (case it of
        None \<Rightarrow> Some (Inr [])
      | Some p \<Rightarrow> getMessages_loop G self excludeGlobal (Some p) [])"

subsection \<open>Notions used to state the properties of the Document\<close>

text \<open>The nodes of a subtree in pre-order, and the nodes properly below a node.\<close>

fun preorder :: "item \<Rightarrow> item list" where
  "preorder (Item f cs) = Item f cs # concat (map preorder cs)"

definition descendants :: "item \<Rightarrow> item list" where
  "descendants it = concat (map preorder (children it))"

text \<open>Every key of the filter is present in the node with a strictly equal value.\<close>

definition matches :: "item \<Rightarrow> (string \<times> prim) list \<Rightarrow> bool" where
  "matches it properties =
     (\<forall>(p, v) \<in> set properties. \<exists>w. item_prop it p = Some w \<and> strict_eq v w)"

text \<open>
  A geometry node with children (its views are counted), a node that marks a shared
  property database, and the view-typed children of a node.
\<close>

definition view_parent :: "item \<Rightarrow> bool" where
  "view_parent it = (item_type (attrs it) = Some ''geometry'' \<and> children it \<noteq> [])"

definition shared_db :: "item \<Rightarrow> bool" where
  "shared_db it =
     (mime (attrs it) = Some ''application/autodesk-db'' \<and>
      urn (attrs it) \<noteq> None \<and> urn (attrs it) \<noteq> Some [])"

definition view_children :: "item \<Rightarrow> item list" where
  "view_children it = filter (\<lambda>c. item_type (attrs c) = Some ''view'') (children it)"

text \<open>
  The nodes that the walk of \<open>annotateViews\<close> reaches, in the order of the walk: it does
  not go below a geometry node with children, nor below a shared property database.
\<close>

fun visited :: "item \<Rightarrow> item list" where
  "visited (Item f cs) =
     Item f cs #
     (if view_parent (Item f cs) \<or> shared_db (Item f cs) then []
      else concat (map visited cs))"

text \<open>
  The path that \<open>annotateViews\<close> derives from the urn of a shared property database.
\<close>

definition property_db_path :: "globals \<Rightarrow> string \<Rightarrow> string" where
  "property_db_path G u =
     (if indexOf u (OSS_PREFIX G) = 0
      then substr u 0 (Some (lastIndexOf u ''%2F'' + 3))
      else substr u 0 (Some (lastIndexOf u ''/'' + 1)))"

definition is_geometry :: "item \<Rightarrow> bool" where
  "is_geometry it = (item_type (attrs it) = Some ''geometry'')"

definition urn_string :: "item \<Rightarrow> string" where
  "urn_string it = (case urn (attrs it) of None \<Rightarrow> [] | Some u \<Rightarrow> u)"

text \<open>
  The nodes at which \<open>annotateViews\<close> assigns \<open>myPropertyDb\<close>, in the order of its walk.
\<close>

definition db_nodes :: "item \<Rightarrow> item list" where
  "db_nodes it = filter (\<lambda>n. shared_db n \<and> \<not> view_parent n) (visited it)"

text \<open>What one step of the walk does to \<open>myNumViews\<close> and to \<open>myPropertyDb\<close>.\<close>

definition num_step :: "(string \<Rightarrow> nat option) \<Rightarrow> item \<Rightarrow> (string \<Rightarrow> nat option)" where
  "num_step m n =
     (if view_parent n then object_set m (guid_key n) (length (view_children n)) else m)"

definition db_step :: "globals \<Rightarrow> string option \<Rightarrow> item \<Rightarrow> string option" where
  "db_step G d n =
     (if shared_db n \<and> \<not> view_parent n then Some (property_db_path G (urn_string n)) else d)"

text \<open>The string \<open>sub\<close> occurs in \<open>s\<close> at position \<open>k\<close>.\<close>

definition occurs_at :: "string \<Rightarrow> string \<Rightarrow> nat \<Rightarrow> bool" where
  "occurs_at s sub k = (\<exists>a b. s = a @ sub @ b \<and> length a = k)"

text \<open>
  \<open>resolveFullPath\<close> as the specification words it: the first matching rule of
  (1) an empty or missing urn is returned unchanged; (2) in offline mode everything
  before the first \<open>/\<close> is replaced by the configured local prefix; (3) a urn starting
  with \<open>urn\<close> becomes \<open>VIEWING_URL/items/urn\<close>; (4) a urn starting with \<open>$file$\<close>, when the
  document's path ends in \<open>/bubble.json\<close>, gets the marker replaced by the document's
  directory; otherwise the urn is returned unchanged.
\<close>

definition ends_with :: "string \<Rightarrow> string \<Rightarrow> bool" where
  "ends_with s suf = (length suf \<le> length s \<and> drop (length s - length suf) s = suf)"

definition resolveFullPath_spec ::
  "globals \<Rightarrow> document \<Rightarrow> string option \<Rightarrow> error + string option" where
  "resolveFullPath_spec G self u =
     (case u of
        None \<Rightarrow> Inr None
      | Some s \<Rightarrow>
          if s = [] then Inr (Some s)
          else if offline G then
            (case decodeURIComponent G (offlineResourcePrefix G) of
               Inl err \<Rightarrow> Inl err
             | Inr pre \<Rightarrow> Inr (Some (pre @ dropWhile (\<lambda>c. c \<noteq> CHR ''/'') s)))
          else if take 3 s = ''urn'' then Inr (Some (VIEWING_URL G @ ''/items/'' @ s))
          else if take 6 s = ''$file$'' \<and> ends_with (myPath self) ''/bubble.json'' then
            Inr (Some (take (length (myPath self) - length ''/bubble.json'') (myPath self) @
                       drop 6 s))
          else Inr (Some s))"

subsection \<open>An example manifest\<close>

definition bare :: item_fields where
  "bare = \<lparr> item_type = None, role = None, mime = None, guid = None, urn = None,
            messages = None, tileSize = None, resolution = None, paperWidth = None,
            paperHeight = None, paperUnits = None, max_level = None, other = [] \<rparr>"

definition example_globals :: globals where
  "example_globals =
     \<lparr> offline = False, offlineResourcePrefix = ''data'',
       VIEWING_URL = ''https://viewing.example/v1'',
       OSS_PREFIX = ''urn:adsk.objects:os.object:'',
       decodeURIComponent = (\<lambda>s. Inr s),
       computeLevelOffset = (\<lambda>t. 9),
       global_parent = Some OtherObject \<rparr>"

definition example_leaflet :: item where
  "example_leaflet =
     Item (bare\<lparr> role := Some ''leaflet'', urn := Some ''sheet/tiles/{z}/{x}_{y}.jpg'',
                 resolution := Some [4096, 2048], paperWidth := Some 17,
                 paperHeight := Some 11, paperUnits := Some ''in'' \<rparr>) []"

definition example_vector :: item where
  "example_vector =
     Item (bare\<lparr> mime := Some ''application/autodesk-f2d'',
                 urn := Some ''sheet/primaryGraphics.f2d'' \<rparr>) []"

definition example_zip :: item where
  "example_zip = Item (bare\<lparr> role := Some ''leaflet-zip'', max_level := Some 12 \<rparr>) []"

definition example_view :: "string \<Rightarrow> item" where
  "example_view g = Item (bare\<lparr> item_type := Some ''view'', guid := Some g \<rparr>) []"

definition example_sheet :: item where
  "example_sheet =
     Item (bare\<lparr> item_type := Some ''geometry'', role := Some ''2d'', guid := Some ''g2d'',
                 messages := Some [\<lparr> msg_type = ''warning'', msg_text = ''sheet'' \<rparr>] \<rparr>)
       [example_leaflet, example_vector, example_zip, example_view ''v1'']"

definition example_scene :: item where
  "example_scene =
     Item (bare\<lparr> item_type := Some ''geometry'', role := Some ''3d'', guid := Some ''g3d'' \<rparr>)
       [Item (bare\<lparr> mime := Some ''application/autodesk-svf'', urn := Some ''urn:scene/0.svf'' \<rparr>) [],
        example_view ''v2'', example_view ''v3'']"

definition example_db :: "string \<Rightarrow> item" where
  "example_db u = Item (bare\<lparr> mime := Some ''application/autodesk-db'', urn := Some u \<rparr>) []"

definition example_manifest :: item where
  "example_manifest =
     Item (bare\<lparr> item_type := Some ''folder'', guid := Some ''top'',
                 messages := Some [\<lparr> msg_type = ''error'', msg_text = ''global'' \<rparr>] \<rparr>)
       [Item (bare\<lparr> item_type := Some ''folder'', role := Some ''viewable'', guid := Some ''f1'' \<rparr>)
          [example_sheet, example_scene],
        example_db ''a/objects.db'',
        example_db ''b/objects.db'']"

definition no_options :: load_options where
  "no_options =
     \<lparr> opt_urlPattern = None, opt_tileSize = None, opt_texWidth = None,
       opt_texHeight = None, opt_paperWidth = None, opt_paperHeight = None,
       opt_paperUnits = None, opt_levelOffset = None, opt_maxLevel = None \<rparr>"

definition example_document :: document where
  "example_document = Document example_globals (Some example_manifest) ''doc'' None"

text \<open>A geometry node below a geometry node.\<close>

definition nested_inner :: item where
  "nested_inner =
     Item (bare\<lparr> item_type := Some ''geometry'', guid := Some ''inner'' \<rparr>) [example_view ''v'']"

definition nested_manifest :: item where
  "nested_manifest =
     Item (bare\<lparr> item_type := Some ''geometry'', guid := Some ''outer'' \<rparr>) [nested_inner]"

text \<open>A geometry node with a given guid and children.\<close>

definition example_geometry :: "string \<Rightarrow> item list \<Rightarrow> item" where
  "example_geometry g cs = Item (bare\<lparr> item_type := Some ''geometry'', guid := Some g \<rparr>) cs"

section \<open>Properties of the Model\<close>

subsection \<open>Evaluation lemmas\<close>

lemma upt4: "[0 ..< 4] = [0, 1, 2, 3]" "[4 ..< 8] = [4, 5, 6, 7]"
  by (simp_all add: upt_rec)

lemma upt16: "[0 ..< 16] = [0, 1, 2, 3, 4, 5, 6, 7, 8, 9, 10, 11, 12, 13, 14, 15]"
  by (simp add: upt_rec)

lemmas real_matrix_eval =
  entry_def mat_of_def det3_def cofactor_def det4_def real_getInverse_def
  real_multiply_def real_set_def LmvMatrix4_real_def upt4 upt16 Matrix4_identity_def

lemma length16_cases:
  assumes "length (e::real list) = 16"
  obtains a0 a1 a2 a3 a4 a5 a6 a7 a8 a9 a10 a11 a12 a13 a14 a15 where
    "e = [a0, a1, a2, a3, a4, a5, a6, a7, a8, a9, a10, a11, a12, a13, a14, a15]"
proof -
  have "e = map (\<lambda>k. e ! k) [0 ..< 16]"
    using assms by (metis map_nth)
  then have "e = [e!0, e!1, e!2, e!3, e!4, e!5, e!6, e!7, e!8, e!9, e!10, e!11, e!12, e!13, e!14, e!15]"
    by (simp add: upt16)
  then show ?thesis using that by blast
qed

lemmas example_eval =
  getPageToModelTransform_def with_transform_def example_f2d_def array_get_def
  array_slice_def Let_def example_transform_def repairViewportMatrix_def
  typed_array_set_def swap_rows_0_1_def swap_elems_def stored_transform_def precision_def

lemma example_ordered:
  "fst (getPageToModelTransform LmvMatrix4_real
          (with_transform example_f2d 1 example_transform) 1) =
   Inr [1 / precision, 0, 0, 0,  0, 1, 0, 0,  0, 0, 1, 0,  0, 0, 0, 1]"
  by (simp add: example_eval real_matrix_eval)

lemma example_swapped:
  "fst (getPageToModelTransform LmvMatrix4_real
          (with_transform example_f2d 1 (swap_rows_0_1 example_transform)) 1) =
   Inr [0, 0, 1 / precision, 0,  0, 1, 0, 0,  1, 0, 0, 0,  0, 0, 0, 1]"
  by (simp add: example_eval real_matrix_eval)

subsection \<open>Missing viewports\<close>

text \<open>
  C9, as the code has it. When the data has \<open>metadata\<close> and a \<open>viewports\<close> array, no precomputed
  \<open>pageToModelTransform\<close>, and no viewport entry at \<open>vpId\<close>, then
  \<open>getPageToModelTransform\<close> returns the identity matrix, raises nothing, and leaves the
  data (the cache included) as it was.
\<close>

theorem getPageToModelTransform_no_viewport:
  assumes "pageToModelTransform f2d = None"
    and "metadata f2d = Some md"
    and "viewports f2d = Some vps"
    and "array_get vps vpId = None"
  shows "getPageToModelTransform L f2d vpId = (Inr Matrix4_identity, f2d)"
  using assms by (simp add: getPageToModelTransform_def)

theorem getPageToModelTransform_no_viewport_witness:
  "getPageToModelTransform LmvMatrix4_real example_f2d 7 = (Inr Matrix4_identity, example_f2d) \<and>
   getPageToModelTransform LmvMatrix4_real example_f2d 0 = (Inr Matrix4_identity, example_f2d) \<and>
   getPageToModelTransform LmvMatrix4_real example_f2d (- 1) = (Inr Matrix4_identity, example_f2d) \<and>
   viewportTransforms example_f2d = None"
proof -
  have a: "pageToModelTransform example_f2d = None"
    and b: "metadata example_f2d = Some \<lparr> page_dimensions = Some
         \<lparr> page_width = 1, page_height = 1, logical_width = 1, logical_height = 1,
           logical_offset_x = 0, logical_offset_y = 0 \<rparr> \<rparr>"
    and c: "viewports example_f2d = Some [None, Some \<lparr> transform = 0 \<rparr>]"
    by (simp_all add: example_f2d_def)
  have d: "array_get [None, Some \<lparr> transform = 0 \<rparr>] 7 = None"
    "array_get [None, Some \<lparr> transform = 0 \<rparr>] 0 = None"
    "array_get [None, Some \<lparr> transform = 0 \<rparr>] (- 1) = None"
    by (simp_all add: array_get_def)
  show ?thesis
    using getPageToModelTransform_no_viewport[OF a b c d(1)]
      getPageToModelTransform_no_viewport[OF a b c d(2)]
      getPageToModelTransform_no_viewport[OF a b c d(3)]
    by (simp add: example_f2d_def)
qed

text \<open>
  C9 as stated asks only that there is no viewport entry at \<open>vpId\<close> and no precomputed
  transform. The function reads \<open>metadata.page_dimensions\<close> and \<open>viewports[vpId]\<close> before it
  tests the entry: data without a \<open>viewports\<close> array has no entry for any id, and data
  without \<open>metadata\<close> may have none at \<open>vpId\<close>; in both cases the call raises a TypeError
  instead of returning the identity matrix.
\<close>

theorem getPageToModelTransform_no_viewport_counterexample:
  "pageToModelTransform (example_f2d\<lparr>viewports := None\<rparr>) = None \<and>
   viewports (example_f2d\<lparr>viewports := None\<rparr>) = None \<and>
   getPageToModelTransform LmvMatrix4_real (example_f2d\<lparr>viewports := None\<rparr>) 1 =
     (Inl TypeError, example_f2d\<lparr>viewports := None\<rparr>) \<and>
   pageToModelTransform (example_f2d\<lparr>metadata := None\<rparr>) = None \<and>
   viewports (example_f2d\<lparr>metadata := None\<rparr>) = Some [None, Some \<lparr> transform = 0 \<rparr>] \<and>
   array_get [None, Some \<lparr> transform = 0 \<rparr>] 7 = None \<and>
   getPageToModelTransform LmvMatrix4_real (example_f2d\<lparr>metadata := None\<rparr>) 7 =
     (Inl TypeError, example_f2d\<lparr>metadata := None\<rparr>)"
  by (simp add: getPageToModelTransform_def example_f2d_def array_get_def)


subsection \<open>The repair of swapped rows\<close>

lemma repair_ordered:
  assumes "\<bar>M ! 0\<bar> \<ge> precision" "\<bar>M ! 5\<bar> \<ge> precision"
  shows "repairViewportMatrix M = M"
  using assms by (simp add: repairViewportMatrix_def Let_def)

lemma repair_swapped:
  assumes "length M = 16" "\<bar>M ! 0\<bar> > precision" "\<bar>M ! 5\<bar> \<ge> precision" "\<bar>M ! 4\<bar> < precision"
  shows "repairViewportMatrix (swap_rows_0_1 M) = M"
proof -
  obtain a0 a1 a2 a3 a4 a5 a6 a7 a8 a9 a10 a11 a12 a13 a14 a15 where
    e: "M = [a0, a1, a2, a3, a4, a5, a6, a7, a8, a9, a10, a11, a12, a13, a14, a15]"
    using length16_cases[OF assms(1)] by blast
  show ?thesis using assms(2-) unfolding e
    by (simp add: repairViewportMatrix_def Let_def swap_rows_0_1_def upt4 swap_elems_def)
qed

lemma getPageToModelTransform_repair_cong:
  assumes "repairViewportMatrix m1 = repairViewportMatrix m2"
  shows "fst (getPageToModelTransform L (with_transform f2d vpId m1) vpId) =
         fst (getPageToModelTransform L (with_transform f2d vpId m2) vpId)"
  using assms
  by (auto simp: getPageToModelTransform_def with_transform_def array_slice_def Let_def
        nth_append split: option.splits sum.splits)

text \<open>
  C3, as the code has it. Let \<open>M\<close> be a raw transform of 16 numbers whose entry 0 has
  magnitude strictly above the double \<open>1e-3\<close>, whose entry 5 has magnitude at least that
  double, and whose entry 4 has magnitude below it (so that the repair triggers on the
  swapped array). Then \<open>repairViewportMatrix\<close> turns \<open>M\<close> with rows 0 and 1 swapped back into
  \<open>M\<close>, and \<open>getPageToModelTransform\<close> returns the same matrix for the data storing the
  swapped array as for the data storing \<open>M\<close>, whatever the matrix operations are.
\<close>

theorem repair_restores_swapped_rows:
  assumes "length M = 16"
    and "\<bar>M ! 0\<bar> > precision" and "\<bar>M ! 5\<bar> \<ge> precision" and "\<bar>M ! 4\<bar> < precision"
  shows "repairViewportMatrix (swap_rows_0_1 M) = M \<and>
         fst (getPageToModelTransform L (with_transform f2d vpId (swap_rows_0_1 M)) vpId) =
         fst (getPageToModelTransform L (with_transform f2d vpId M) vpId)"
proof -
  have s: "repairViewportMatrix (swap_rows_0_1 M) = M"
    using assms by (rule repair_swapped)
  have o: "repairViewportMatrix M = M"
    using assms by (simp add: repair_ordered)
  show ?thesis using s o getPageToModelTransform_repair_cong[of "swap_rows_0_1 M" M] by simp
qed

theorem repair_restores_swapped_rows_witness:
  "length example_transform2 = 16 \<and>
   \<bar>example_transform2 ! 0\<bar> > precision \<and> \<bar>example_transform2 ! 5\<bar> \<ge> precision \<and>
   \<bar>example_transform2 ! 4\<bar> < precision \<and>
   swap_rows_0_1 example_transform2 = [0, 4, 0, 0,  2, 0, 0, 0,  0, 0, 1, 0,  3, 5, 0, 1] \<and>
   repairViewportMatrix (swap_rows_0_1 example_transform2) = example_transform2 \<and>
   fst (getPageToModelTransform LmvMatrix4_real
          (with_transform example_f2d 1 (swap_rows_0_1 example_transform2)) 1) =
   fst (getPageToModelTransform LmvMatrix4_real
          (with_transform example_f2d 1 example_transform2) 1) \<and>
   fst (getPageToModelTransform LmvMatrix4_real
          (with_transform example_f2d 1 example_transform2) 1) =
     Inr [1 / 2, 0, 0, 0,  0, 1 / 4, 0, 0,  0, 0, 1, 0,  - (3 / 2), - (5 / 4), 0, 1]"
proof -
  have h: "length example_transform2 = 16" "\<bar>example_transform2 ! 0\<bar> > precision"
    "\<bar>example_transform2 ! 5\<bar> \<ge> precision" "\<bar>example_transform2 ! 4\<bar> < precision"
    by (simp_all add: example_transform2_def precision_def)
  have v: "fst (getPageToModelTransform LmvMatrix4_real
          (with_transform example_f2d 1 example_transform2) 1) =
     Inr [1 / 2, 0, 0, 0,  0, 1 / 4, 0, 0,  0, 0, 1, 0,  - (3 / 2), - (5 / 4), 0, 1]"
    by (simp add: example_eval example_transform2_def real_matrix_eval)
  have s: "swap_rows_0_1 example_transform2 = [0, 4, 0, 0,  2, 0, 0, 0,  0, 0, 1, 0,  3, 5, 0, 1]"
    by (simp add: swap_rows_0_1_def example_transform2_def)
  show ?thesis
    using repair_restores_swapped_rows[OF h, of LmvMatrix4_real example_f2d 1] h v s by simp
qed


text \<open>
  C3 as stated allows entry 0 of \<open>M\<close> to be the double \<open>1e-3\<close> itself. There the test
  \<open>Math.abs(e[4]) > precision\<close> on the swapped array fails, row 0 is exchanged with row 2
  instead: the repaired array is not \<open>M\<close>, and the two final matrices differ.
\<close>

theorem swapped_rows_boundary_counterexample:
  "length example_transform = 16 \<and>
   \<bar>example_transform ! 0\<bar> \<ge> precision \<and> \<bar>example_transform ! 5\<bar> \<ge> precision \<and>
   \<bar>swap_rows_0_1 example_transform ! 0\<bar> < precision \<and>
   repairViewportMatrix (swap_rows_0_1 example_transform) =
     [0, 0, 1, 0,  0, 1, 0, 0,  precision, 0, 0, 0,  0, 0, 0, 1] \<and>
   repairViewportMatrix example_transform = example_transform \<and>
   stored_transform (with_transform example_f2d 1 (swap_rows_0_1 example_transform)) 1
     = Some (swap_rows_0_1 example_transform) \<and>
   fst (getPageToModelTransform LmvMatrix4_real
          (with_transform example_f2d 1 (swap_rows_0_1 example_transform)) 1) \<noteq>
   fst (getPageToModelTransform LmvMatrix4_real
          (with_transform example_f2d 1 example_transform) 1)"
  unfolding example_ordered example_swapped
  by (simp add: example_eval upt4)


subsection \<open>The stored transform is not modified\<close>

text \<open>
  C10. \<open>getPageToModelTransform\<close> leaves the array stored as the raw transform of every
  viewport as it was, and with it the \<open>viewports\<close> and the \<open>metadata\<close>: the repair
  writes into the copy made by \<open>slice\<close>.
\<close>

theorem stored_transform_unchanged:
  assumes "stored_transform f2d v = Some m"
  shows "stored_transform (snd (getPageToModelTransform L f2d vpId)) v = Some m \<and>
         viewports (snd (getPageToModelTransform L f2d vpId)) = viewports f2d \<and>
         metadata (snd (getPageToModelTransform L f2d vpId)) = metadata f2d"
  using assms
  by (auto simp: getPageToModelTransform_def stored_transform_def array_slice_def Let_def
        nth_append split: option.splits sum.splits if_splits)

theorem stored_transform_unchanged_witness:
  "stored_transform (with_transform example_f2d 1 (swap_rows_0_1 example_transform2)) 1
     = Some [0, 4, 0, 0,  2, 0, 0, 0,  0, 0, 1, 0,  3, 5, 0, 1] \<and>
   stored_transform (snd (getPageToModelTransform LmvMatrix4_real
      (with_transform example_f2d 1 (swap_rows_0_1 example_transform2)) 1)) 1
     = Some [0, 4, 0, 0,  2, 0, 0, 0,  0, 0, 1, 0,  3, 5, 0, 1] \<and>
   arrays (snd (getPageToModelTransform LmvMatrix4_real
      (with_transform example_f2d 1 (swap_rows_0_1 example_transform2)) 1)) =
     [[0, 4, 0, 0,  2, 0, 0, 0,  0, 0, 1, 0,  3, 5, 0, 1],
      [2, 0, 0, 0,  0, 4, 0, 0,  0, 0, 1, 0,  3, 5, 0, 1]]"
proof -
  have s: "stored_transform (with_transform example_f2d 1 (swap_rows_0_1 example_transform2)) 1
     = Some [0, 4, 0, 0,  2, 0, 0, 0,  0, 0, 1, 0,  3, 5, 0, 1]"
    by (simp add: example_eval example_transform2_def)
  have a: "arrays (snd (getPageToModelTransform LmvMatrix4_real
      (with_transform example_f2d 1 (swap_rows_0_1 example_transform2)) 1)) =
     [[0, 4, 0, 0,  2, 0, 0, 0,  0, 0, 1, 0,  3, 5, 0, 1],
      [2, 0, 0, 0,  0, 4, 0, 0,  0, 0, 1, 0,  3, 5, 0, 1]]"
    by (simp add: example_eval example_transform2_def upt4)
  show ?thesis
    using stored_transform_unchanged[OF s, of LmvMatrix4_real 1] s a by simp
qed


subsection \<open>Clips that contain a point\<close>

text \<open>
  The even-odd rule on a rectangle with sides parallel to the axes: the region is the
  rectangle, with its left, right and upper sides.
\<close>

lemma region_contains_rectangle:
  assumes "a < c" and "b < d"
  shows "region_contains [[(a, b), (c, b), (c, d), (a, d)]] (x, y) =
           (a \<le> x \<and> x \<le> c \<and> b < y \<and> y \<le> d)"
  using assms
  by (auto simp: region_contains_def crossings_def polygon_edges_def ray_crosses_def crossing_x_def)




























text \<open>
  The arithmetic of doubles rounds nothing when the result is a double: an integer of
  less than 54 bits times a power of two, within the range of the doubles.
\<close>

lemma round_half_even_int: "round_half_even (of_int z) = z"
  by (simp add: round_half_even_def)

lemma floor_log2_le:
  assumes "r \<noteq> 0" and "\<bar>r\<bar> < 2 powi (n + 1)"
  shows "\<lfloor>log 2 \<bar>r\<bar>\<rfloor> \<le> n"
proof -
  have e: "(2::real) powr real_of_int (n + 1) = 2 powi (n + 1)"
    by (rule powr_real_of_int') simp_all
  have "\<bar>r\<bar> < 2 powr real_of_int (n + 1)"
    using assms(2) by (simp only: e)
  then have "log 2 \<bar>r\<bar> < real_of_int (n + 1)"
    using assms(1) by (subst log_less_iff) simp_all
  then show ?thesis by (simp add: floor_le_iff)
qed


lemma round_double_exact:
  assumes "r = of_int m * 2 powi k" and "\<bar>m\<bar> < 2 ^ 53" and "- 1074 \<le> k"
    and "\<bar>r\<bar> < 2 ^ 1024"
  shows "round_double r = Fin r"
proof (cases "r = 0")
  case True
  then show ?thesis by (simp add: round_double_def)
next
  case False
  have "\<bar>r\<bar> = of_int \<bar>m\<bar> * 2 powi k"
    unfolding assms(1) by (simp add: abs_mult)
  also have "\<dots> < 2 ^ 53 * 2 powi k"
  proof -
    have "real_of_int \<bar>m\<bar> < 2 ^ 53"
      using assms(2) by (simp only: of_int_less_numeral_power_cancel_iff)
    then show ?thesis by (simp add: zero_less_power_int)
  qed
  also have "\<dots> = 2 powi (k + 52 + 1)"
    by (simp add: power_int_add)
  finally have "\<lfloor>log 2 \<bar>r\<bar>\<rfloor> \<le> k + 52"
    using False by (intro floor_log2_le)
  then have b: "binade r \<le> k + 52" using assms(3) by (simp add: binade_def)
  define n where "n = nat (k + 52 - binade r)"
  have n: "int n = k + 52 - binade r" using b by (simp add: n_def)
  have k: "k = (binade r - 52) + int n" using n by simp
  have "2 powi k = (2::real) powi (binade r - 52) * 2 ^ n"
    by (subst k, subst power_int_add) (simp_all add: power_int_of_nat)
  moreover have "(2::real) powi (binade r - 52) \<noteq> 0" by simp
  ultimately have q: "r / 2 powi (binade r - 52) = of_int (m * 2 ^ n)"
    using assms(1) by (simp add: field_simps)
  have "of_int (round_half_even (r / 2 powi (binade r - 52))) * 2 powi (binade r - 52) = r"
    unfolding q round_half_even_int using q by (simp add: field_simps)
  then show ?thesis using False assms(4) by (simp add: round_double_def Let_def)
qed

lemma round_double_scaled:
  assumes "r * 2 ^ n \<in> \<int>" and "\<bar>r * 2 ^ n\<bar> < 2 ^ 53" and "n \<le> 1074"
  shows "round_double r = Fin r"
proof -
  obtain m where m: "r * 2 ^ n = of_int m" using assms(1) by (auto elim: Ints_cases)
  have a: "r = of_int m * 2 powi (- int n)"
    using m by (simp add: power_int_minus field_simps)
  have b: "\<bar>m\<bar> < 2 ^ 53" using assms(2) m by (metis of_int_abs of_int_less_numeral_power_cancel_iff)
  have "\<bar>r\<bar> \<le> \<bar>r * 2 ^ n\<bar>"
    by (simp add: abs_mult mult_le_cancel_left1)
  moreover have "(2::real) ^ 53 < 2 ^ 1024" by simp
  ultimately have c: "\<bar>r\<bar> < 2 ^ 1024" using assms(2) by linarith
  show ?thesis using round_double_exact[OF a b _ c] assms(3) by simp
qed

lemmas round_eval =
  round_double_scaled[where n = 0] round_double_scaled[where n = 1]
  round_double_scaled[where n = 52] round_double_scaled[where n = 104]



lemmas clip_eval =
  pointInClip_def example_f2d_def pointInPolygon_def pointInContour_def pts_at_def
  edge_test_def Let_def clip_ok_def ieee_ops_def round_eval

lemmas region_eval =
  region_contains_def crossings_def region_def vertices_def polygon_edges_def
  ray_crosses_def crossing_x_def real_of_double_def example_f2d_def


lemma example_pointInClip_all:
  "pointInClip ieee_ops example_f2d (Fin (1 / 2), Fin (1 / 2)) 0 = Inr [1, 3]"
  by (simp add: clip_eval upt_rec)

lemma example_region:
  "region (clips example_f2d ! 1) = [[(0, 0), (1, 0), (1, 1), (0, 1)]]"
  "polygon_edges [(0, 0), (1, 0), (1, 1), (0, 1)] =
     [((0, 1), (0, 0)), ((0, 0), (1, 0)), ((1, 0), (1, 1)), ((1, 1), (0, 1))]"
  "filter (ray_crosses (1 / 2, 1 / 2)) (polygon_edges [(0, 0), (1, 0), (1, 1), (0::real, 1::real)]) =
     [((1, 0), (1, 1))]"
  "region_contains (region (clips example_f2d ! 1)) (1 / 2, 1 / 2)"
  "\<not> region_contains (region (clips example_f2d ! 2)) (1 / 2, 1 / 2)"
  by (simp_all add: region_eval upt_rec)





lemma example_rounding_region:
  "region (clips rounding_f2d ! 1) =
     [[(- (1 / 2 ^ 52), - (1 / 2 ^ 52)), (1, 1 + 1 / 2 ^ 52), (- 1, 1)]]"
  "\<not> region_contains (region (clips rounding_f2d ! 1)) (0, 0)"
  by (simp_all add: region_eval rounding_f2d_def upt_rec)



section \<open>Properties of the Document\<close>

subsection \<open>getSubItemsWithProperties\<close>

lemma hasProperties_Cons:
  "hasProperties it ((p, v) # properties) =
     ((\<exists>w. item_prop it p = Some w \<and> strict_eq v w) \<and> hasProperties it properties)"
  by (cases "item_prop it p") simp_all

lemma hasProperties_matches: "hasProperties it properties = matches it properties"
proof (induction properties)
  case Nil
  show ?case by (simp add: matches_def)
next
  case (Cons pv properties)
  obtain p v where pv: "pv = (p, v)" by (cases pv)
  have "matches it (pv # properties) =
        ((\<exists>w. item_prop it p = Some w \<and> strict_eq v w) \<and> matches it properties)"
    by (simp add: matches_def pv)
  then show ?case using Cons by (simp only: pv hasProperties_Cons)
qed

lemma foldl_append_step:
  "foldl (\<lambda>acc x. acc @ g x) a xs = a @ concat (map g xs)"
  by (induction xs arbitrary: a) simp_all

lemma getSubItems_recursive:
  "getSubItems it properties True = filter (\<lambda>c. matches c properties) (descendants it)"
proof (induction it properties True rule: getSubItems.induct)
  case (1 f cs properties)
  have step: "(if hasProperties child properties then subItems @ [child] else subItems) @
                getSubItems child properties True
              = subItems @ filter (\<lambda>c. matches c properties) (preorder child)"
    if c: "child \<in> set cs" for child subItems
  proof -
    obtain g ds where ch: "child = Item g ds" by (cases child)
    have "getSubItems child properties True = filter (\<lambda>c. matches c properties) (descendants child)"
      using 1 c by simp
    then show ?thesis
      by (simp add: ch descendants_def hasProperties_matches del: getSubItems.simps)
  qed
  have "getSubItems (Item f cs) properties True =
        foldl (\<lambda>subItems child. subItems @ filter (\<lambda>c. matches c properties) (preorder child)) [] cs"
    unfolding getSubItems.simps Let_def if_True
    by (rule foldl_cong[OF refl refl]) (rule step)
  also have "\<dots> = concat (map (\<lambda>child. filter (\<lambda>c. matches c properties) (preorder child)) cs)"
    by (simp add: foldl_append_step)
  also have "\<dots> = filter (\<lambda>c. matches c properties) (descendants (Item f cs))"
    by (simp add: descendants_def filter_concat comp_def)
  finally show ?case .
qed

text \<open>
  C7. For every node \<open>n\<close> and filter \<open>f\<close>, \<open>getSubItemsWithProperties(n, f, true)\<close> is the
  list of the nodes properly below \<open>n\<close>, in pre-order, that have every key of \<open>f\<close> with a
  strictly equal value: the pre-order list lists every node once, each child before
  its own subtree and siblings in order, and the result keeps exactly its matching
  entries. The result is empty for \<open>null\<close> and for a node without children.
\<close>

theorem getSubItemsWithProperties_recursive:
  "getSubItemsWithProperties (Some n) f True = filter (\<lambda>c. matches c f) (descendants n) \<and>
   getSubItemsWithProperties None f True = [] \<and>
   (children n = [] \<longrightarrow> getSubItemsWithProperties (Some n) f True = [])"
  by (simp add: getSubItemsWithProperties_def getSubItems_recursive descendants_def)


lemmas example_items =
  bare_def example_leaflet_def example_vector_def example_zip_def example_view_def
  example_sheet_def example_scene_def example_db_def example_manifest_def
  nested_inner_def nested_manifest_def example_geometry_def

lemma example_find_sheets: "getSubItemsWithProperties (Some example_manifest)
      [(''type'', JStr ''geometry''), (''role'', JStr ''2d'')] True = [example_sheet]"
  by (simp add: getSubItemsWithProperties_def example_items item_prop_def strict_eq_def)

lemma example_find_views: "map guid_key (getSubItemsWithProperties (Some example_manifest)
      [(''type'', JStr ''view'')] True) = [''v1'', ''v2'', ''v3'']"
  by (simp add: getSubItemsWithProperties_def example_items item_prop_def strict_eq_def guid_key_def)

theorem getSubItemsWithProperties_recursive_witness:
  "getSubItemsWithProperties (Some example_manifest)
      [(''type'', JStr ''geometry''), (''role'', JStr ''2d'')] True = [example_sheet] \<and>
   filter (\<lambda>c. matches c [(''type'', JStr ''geometry''), (''role'', JStr ''2d'')])
      (descendants example_manifest) = [example_sheet] \<and>
   children (example_view ''v1'') = [] \<and>
   getSubItemsWithProperties (Some (example_view ''v1''))
      [(''type'', JStr ''geometry''), (''role'', JStr ''2d'')] True = []"
proof -
  let ?f = "[(''type'', JStr ''geometry''), (''role'', JStr ''2d'')]"
  have c: "children (example_view ''v1'') = []" by (simp add: example_view_def)
  have a: "filter (\<lambda>c. matches c ?f) (descendants example_manifest) = [example_sheet]"
    using getSubItemsWithProperties_recursive[of example_manifest ?f] example_find_sheets by metis
  have b: "getSubItemsWithProperties (Some (example_view ''v1'')) ?f True = []"
    using getSubItemsWithProperties_recursive[of "example_view ''v1''" ?f] c by metis
  show ?thesis using example_find_sheets a b c by blast
qed



subsection \<open>Strings\<close>

lemma occurs_at_iff:
  "occurs_at s sub k \<longleftrightarrow> k \<le> length s \<and> take (length sub) (drop k s) = sub"
proof
  assume "occurs_at s sub k"
  then obtain a b where "s = a @ sub @ b" "length a = k" by (auto simp: occurs_at_def)
  then show "k \<le> length s \<and> take (length sub) (drop k s) = sub" by auto
next
  assume h: "k \<le> length s \<and> take (length sub) (drop k s) = sub"
  have "s = take k s @ take (length sub) (drop k s) @ drop (length sub) (drop k s)"
    by (metis append_take_drop_id)
  then have "s = take k s @ sub @ drop (length sub) (drop k s)" using h by simp
  moreover have "length (take k s) = k" using h by simp
  ultimately show "occurs_at s sub k" unfolding occurs_at_def by blast
qed

lemma occurrences_filter:
  "occurrences s sub = filter (occurs_at s sub) [0 ..< Suc (length s)]"
  unfolding occurrences_def
  by (rule filter_cong) (auto simp: occurs_at_iff)

lemma upt_split:
  assumes "k < n"
  shows "[0 ..< n] = [0 ..< k] @ k # [Suc k ..< n]"
proof -
  have "[0 ..< k + (n - k)] = [0 ..< k] @ [k ..< k + (n - k)]"
    by (rule upt_add_eq_append) simp
  then have "[0 ..< n] = [0 ..< k] @ [k ..< n]" using assms by simp
  then show ?thesis using assms by (simp add: upt_conv_Cons)
qed

lemma filter_upt_first:
  assumes "P k" and "k < n" and "\<forall>j<k. \<not> P j"
  shows "filter P [0 ..< n] = k # filter P [Suc k ..< n]"
proof -
  have "[0 ..< n] = [0 ..< k] @ k # [Suc k ..< n]"
    using assms(2) by (rule upt_split)
  moreover have "filter P [0 ..< k] = []" using assms(3) by (simp add: filter_empty_conv)
  ultimately show ?thesis using assms(1) by simp
qed

lemma filter_upt_last:
  assumes "P k" and "k < n" and "\<forall>j. k < j \<and> j < n \<longrightarrow> \<not> P j"
  shows "filter P [0 ..< n] = filter P [0 ..< k] @ [k]"
proof -
  have "[0 ..< n] = [0 ..< k] @ k # [Suc k ..< n]"
    using assms(2) by (rule upt_split)
  moreover have "filter P [Suc k ..< n] = []" using assms(3) by (auto simp: filter_empty_conv)
  ultimately show ?thesis using assms(1) by simp
qed

lemma indexOf_first:
  assumes "occurs_at s sub k" and "\<forall>j<k. \<not> occurs_at s sub j"
  shows "indexOf s sub = int k" and "replace_first s sub rep = take k s @ rep @ drop (k + length sub) s"
proof -
  have "k < Suc (length s)" using assms(1) by (auto simp: occurs_at_iff)
  then have "occurrences s sub = k # filter (occurs_at s sub) [Suc k ..< Suc (length s)]"
    unfolding occurrences_filter using assms by (intro filter_upt_first) auto
  then show "indexOf s sub = int k"
    and "replace_first s sub rep = take k s @ rep @ drop (k + length sub) s"
    by (simp_all add: indexOf_def replace_first_def)
qed

lemma lastIndexOf_last:
  assumes "occurs_at s sub k" and "\<forall>j>k. \<not> occurs_at s sub j"
  shows "lastIndexOf s sub = int k"
proof -
  have "k < Suc (length s)" using assms(1) by (auto simp: occurs_at_iff)
  then have "occurrences s sub = filter (occurs_at s sub) [0 ..< k] @ [k]"
    unfolding occurrences_filter using assms by (intro filter_upt_last) auto
  then show ?thesis by (simp add: lastIndexOf_def)
qed

lemma indexOf_none:
  assumes "\<forall>j. \<not> occurs_at s sub j"
  shows "indexOf s sub = - 1" and "lastIndexOf s sub = - 1"
proof -
  have "occurrences s sub = []"
    unfolding occurrences_filter using assms by (simp add: filter_empty_conv)
  then show "indexOf s sub = - 1" and "lastIndexOf s sub = - 1"
    by (simp_all add: indexOf_def lastIndexOf_def)
qed

lemma first_occurrence:
  assumes "occurs_at s sub j"
  obtains k where "occurs_at s sub k" and "\<forall>i<k. \<not> occurs_at s sub i"
proof -
  define k where "k = (LEAST i. occurs_at s sub i)"
  have "occurs_at s sub k" unfolding k_def using assms by (rule LeastI)
  moreover have "\<forall>i<k. \<not> occurs_at s sub i" unfolding k_def using not_less_Least by blast
  ultimately show ?thesis using that by blast
qed

lemma indexOf_range:
  "indexOf s sub = - 1 \<or>
   (\<exists>k. indexOf s sub = int k \<and> occurs_at s sub k \<and> (\<forall>j<k. \<not> occurs_at s sub j))"
proof (cases "\<exists>j. occurs_at s sub j")
  case True
  then obtain k where "occurs_at s sub k" and "\<forall>i<k. \<not> occurs_at s sub i"
    using first_occurrence by blast
  then show ?thesis using indexOf_first(1) by blast
next
  case False
  then show ?thesis using indexOf_none(1) by simp
qed

lemma indexOf_zero_iff: "indexOf s sub = 0 \<longleftrightarrow> take (length sub) s = sub"
proof
  assume z: "indexOf s sub = 0"
  from indexOf_range[of s sub] z have "occurs_at s sub 0" by auto
  then show "take (length sub) s = sub" by (simp add: occurs_at_iff)
next
  assume "take (length sub) s = sub"
  then have "occurs_at s sub 0" by (simp add: occurs_at_iff)
  then show "indexOf s sub = 0" using indexOf_first(1)[of s sub 0] by simp
qed

lemma indexOf_found_iff: "indexOf s sub \<noteq> - 1 \<longleftrightarrow> (\<exists>a b. s = a @ sub @ b)"
proof
  assume "indexOf s sub \<noteq> - 1"
  then obtain k where "occurs_at s sub k" using indexOf_range[of s sub] by auto
  then show "\<exists>a b. s = a @ sub @ b" by (auto simp: occurs_at_def)
next
  assume "\<exists>a b. s = a @ sub @ b"
  then obtain j where "occurs_at s sub j" by (auto simp: occurs_at_def)
  then obtain k where "occurs_at s sub k" and "\<forall>i<k. \<not> occurs_at s sub i"
    using first_occurrence by blast
  then have "indexOf s sub = int k" by (rule indexOf_first(1))
  then show "indexOf s sub \<noteq> - 1" by simp
qed

lemma substr_prefix:
  "k \<le> length s \<Longrightarrow> substr s 0 (Some (int k)) = take k s"
  by (auto simp: substr_def Let_def min_def max_def)

lemma property_db_path_separator:
  assumes "u = a @ sep @ b" and "\<forall>j>length a. \<not> occurs_at u sep j"
  shows "substr u 0 (Some (lastIndexOf u sep + int (length sep))) = a @ sep"
proof -
  have o: "occurs_at u sep (length a)" using assms(1) by (auto simp: occurs_at_def)
  have l: "lastIndexOf u sep = int (length a)"
    using lastIndexOf_last[OF o assms(2)] .
  have "substr u 0 (Some (int (length a + length sep))) = take (length a + length sep) u"
    by (rule substr_prefix) (simp add: assms(1))
  then show ?thesis using l assms(1) by simp
qed

subsection \<open>The walk of annotateViews\<close>

lemma count_views_step:
  "count_views it (self, n) c =
     (if item_type (attrs c) = Some ''view''
      then (self\<lparr>myViewGeometry := (myViewGeometry self)(guid_key c := Some it)\<rparr>, n + 1)
      else (self, n))"
  by (simp add: count_views_def)

lemma count_views_fold:
  "foldl (count_views it) (self, n) cs = (s1, k) \<Longrightarrow>
   myNumViews s1 = myNumViews self \<and> myPropertyDb s1 = myPropertyDb self \<and>
   k = n + length (filter (\<lambda>c. item_type (attrs c) = Some ''view'') cs)"
proof (induction cs arbitrary: self n)
  case Nil
  then show ?case by simp
next
  case (Cons c cs)
  show ?case
  proof (cases "item_type (attrs c) = Some ''view''")
    case True
    then have "foldl (count_views it)
        (self\<lparr>myViewGeometry := (myViewGeometry self)(guid_key c := Some it)\<rparr>, n + 1) cs = (s1, k)"
      using Cons.prems by (simp add: count_views_step)
    from Cons.IH[OF this] True show ?thesis by simp
  next
    case False
    then have "foldl (count_views it) (self, n) cs = (s1, k)"
      using Cons.prems by (simp add: count_views_step)
    from Cons.IH[OF this] False show ?thesis by simp
  qed
qed

lemma visited_leaf_step:
  "\<not> view_parent it \<Longrightarrow> \<not> shared_db it \<Longrightarrow>
   foldl num_step m (visited it) = foldl num_step m (concat (map visited (children it))) \<and>
   foldl (db_step G) d (visited it) = foldl (db_step G) d (concat (map visited (children it)))"
  by (cases it) (simp add: num_step_def db_step_def)

lemma visited_stop:
  "view_parent it \<or> shared_db it \<Longrightarrow> visited it = [it]"
  by (cases it) simp

lemma annotateViews_children:
  assumes "\<And>c s. c \<in> set cs \<Longrightarrow>
     myNumViews (annotateViews G c s) = foldl num_step (myNumViews s) (visited c) \<and>
     myPropertyDb (annotateViews G c s) = foldl (db_step G) (myPropertyDb s) (visited c)"
  shows "myNumViews (foldl (\<lambda>s child. annotateViews G child s) self cs) =
           foldl num_step (myNumViews self) (concat (map visited cs)) \<and>
         myPropertyDb (foldl (\<lambda>s child. annotateViews G child s) self cs) =
           foldl (db_step G) (myPropertyDb self) (concat (map visited cs))"
  using assms
proof (induction cs arbitrary: self)
  case Nil
  then show ?case by simp
next
  case (Cons c cs)
  have h: "myNumViews (annotateViews G c self) = foldl num_step (myNumViews self) (visited c)"
    "myPropertyDb (annotateViews G c self) = foldl (db_step G) (myPropertyDb self) (visited c)"
    using Cons.prems[of c self] by simp_all
  have "myNumViews (foldl (\<lambda>s child. annotateViews G child s) (annotateViews G c self) cs) =
           foldl num_step (myNumViews (annotateViews G c self)) (concat (map visited cs)) \<and>
         myPropertyDb (foldl (\<lambda>s child. annotateViews G child s) (annotateViews G c self) cs) =
           foldl (db_step G) (myPropertyDb (annotateViews G c self)) (concat (map visited cs))"
    by (rule Cons.IH) (use Cons.prems in simp)
  then show ?case using h by simp
qed

lemma annotateViews_visited:
  "myNumViews (annotateViews G it self) = foldl num_step (myNumViews self) (visited it) \<and>
   myPropertyDb (annotateViews G it self) = foldl (db_step G) (myPropertyDb self) (visited it)"
proof (induction G it self rule: annotateViews.induct)
  case (1 G f cs self)
  let ?it = "Item f cs"
  show ?case
  proof (cases "view_parent ?it")
    case True
    obtain s1 k where fl: "foldl (count_views ?it) (self, 0) cs = (s1, k)"
      by (cases "foldl (count_views ?it) (self, 0) cs")
    have a: "annotateViews G ?it self =
               s1\<lparr>myNumViews := object_set (myNumViews s1) (guid_key ?it) k\<rparr>"
      using True fl by (simp add: view_parent_def)
    have v: "visited ?it = [?it]" using True by (simp add: visited_stop)
    from count_views_fold[OF fl] show ?thesis
      unfolding a v using True
      by (simp add: num_step_def db_step_def view_children_def)
  next
    case nvp: False
    show ?thesis
    proof (cases "shared_db ?it")
      case True
      then obtain u where u: "urn f = Some u" "u \<noteq> []"
        and m: "mime f = Some ''application/autodesk-db''"
        by (auto simp: shared_db_def)
      have g: "\<not> (item_type f = Some ''geometry'' \<and> length cs \<noteq> 0)"
        using nvp by (simp add: view_parent_def)
      have a: "annotateViews G ?it self = self\<lparr>myPropertyDb := Some (property_db_path G u)\<rparr>"
        using g u m by (auto simp: property_db_path_def)
      have v: "visited ?it = [?it]" using True by (simp add: visited_stop)
      show ?thesis unfolding a v using nvp True u
        by (simp add: num_step_def db_step_def urn_string_def)
    next
      case False
      have g: "\<not> (item_type f = Some ''geometry'' \<and> length cs \<noteq> 0)"
        using nvp by (simp add: view_parent_def)
      have d: "\<not> (mime f = Some ''application/autodesk-db'' \<and> urn f \<noteq> None \<and> urn f \<noteq> Some [])"
        using False by (simp add: shared_db_def)
      have a: "annotateViews G ?it self = foldl (\<lambda>s child. annotateViews G child s) self cs"
        using g d by (cases "cs = []") auto
      have ch: "myNumViews (foldl (\<lambda>s child. annotateViews G child s) self cs) =
           foldl num_step (myNumViews self) (concat (map visited cs)) \<and>
         myPropertyDb (foldl (\<lambda>s child. annotateViews G child s) self cs) =
           foldl (db_step G) (myPropertyDb self) (concat (map visited cs))"
      proof (cases "cs = []")
        case True
        then show ?thesis by simp
      next
        case ne: False
        show ?thesis
        proof (rule annotateViews_children)
          fix c s
          assume "c \<in> set cs"
          then show "myNumViews (annotateViews G c s) = foldl num_step (myNumViews s) (visited c) \<and>
            myPropertyDb (annotateViews G c s) = foldl (db_step G) (myPropertyDb s) (visited c)"
            using "1.IH"[of "length cs" c s] g d ne by simp
        qed
      qed
      show ?thesis unfolding a using ch visited_leaf_step[OF nvp False, of "myNumViews self" G "myPropertyDb self"]
        by simp
    qed
  qed
qed

lemma Document_fields:
  "myNumViews (Document G (Some rootItem) path acm) = foldl num_step (\<lambda>_. None) (visited rootItem)"
  "myPropertyDb (Document G (Some rootItem) path acm) = foldl (db_step G) None (visited rootItem)"
  "myPropertyDb (Document G None path acm) = None"
  by (simp_all add: Document_def Let_def annotateViews_visited)

lemma foldl_db_step:
  "foldl (db_step G) d ns =
     (if filter (\<lambda>n. shared_db n \<and> \<not> view_parent n) ns = [] then d
      else Some (property_db_path G
             (urn_string (last (filter (\<lambda>n. shared_db n \<and> \<not> view_parent n) ns)))))"
  by (induction ns rule: rev_induct) (simp_all add: db_step_def)

lemma num_step_apply:
  "num_step m n k =
     (if view_parent n \<and> guid_key n = k \<and> k \<noteq> ''__proto__''
      then Some (length (view_children n)) else m k)"
  by (simp add: num_step_def object_set_def)

lemma foldl_num_step_snoc:
  "foldl num_step m (ns @ [x]) k =
     (if view_parent x \<and> guid_key x = k \<and> k \<noteq> ''__proto__''
      then Some (length (view_children x))
      else foldl num_step m ns k)"
  by (simp only: foldl_append foldl.simps num_step_apply)

lemma foldl_num_step_other:
  "\<forall>n\<in>set ns. view_parent n \<longrightarrow> guid_key n \<noteq> k \<Longrightarrow> foldl num_step m ns k = m k"
  by (induction ns rule: rev_induct) (auto simp: foldl_num_step_snoc simp del: foldl_append)

lemma view_parent_geometry: "view_parent n \<Longrightarrow> is_geometry n"
  by (simp add: view_parent_def is_geometry_def)

lemma key_not_in_map_filter:
  "k \<notin> set (map h (filter P xs)) \<Longrightarrow> n \<in> set xs \<Longrightarrow> P n \<Longrightarrow> h n \<noteq> k"
  by (induction xs) (auto split: if_splits)

lemma foldl_num_step_at:
  assumes "distinct (map guid_key (filter is_geometry ns))"
    and "g \<in> set ns" and "is_geometry g" and "guid_key g \<noteq> ''__proto__''"
  shows "foldl num_step m ns (guid_key g) =
           (if view_parent g then Some (length (view_children g)) else m (guid_key g))"
  using assms
proof (induction ns rule: rev_induct)
  case Nil
  then show ?case by simp
next
  case (snoc x ns)
  have d: "distinct (map guid_key (filter is_geometry ns))"
    using snoc.prems(1) by simp
  show ?case
  proof (cases "x = g")
    case True
    have "guid_key g \<notin> set (map guid_key (filter is_geometry ns))"
      using snoc.prems(1,3) True by simp
    then have "\<forall>n\<in>set ns. is_geometry n \<longrightarrow> guid_key n \<noteq> guid_key g"
      using key_not_in_map_filter by metis
    then have "\<forall>n\<in>set ns. view_parent n \<longrightarrow> guid_key n \<noteq> guid_key g"
      using view_parent_geometry by blast
    then have "foldl num_step m ns (guid_key g) = m (guid_key g)"
      by (rule foldl_num_step_other)
    then show ?thesis using True snoc.prems(4)
      by (simp add: foldl_num_step_snoc del: foldl_append)
  next
    case False
    then have gin: "g \<in> set ns" using snoc.prems(2) by simp
    have ih: "foldl num_step m ns (guid_key g) =
           (if view_parent g then Some (length (view_children g)) else m (guid_key g))"
      using snoc.IH[OF d gin snoc.prems(3,4)] .
    have "view_parent x \<Longrightarrow> guid_key x \<noteq> guid_key g"
    proof -
      assume "view_parent x"
      then have "is_geometry x" by (rule view_parent_geometry)
      then have "guid_key x \<notin> set (map guid_key (filter is_geometry ns))"
        using snoc.prems(1) by simp
      then show ?thesis using snoc.prems(3) gin key_not_in_map_filter by metis
    qed
    then show ?thesis using ih by (auto simp: foldl_num_step_snoc simp del: foldl_append)
  qed
qed

lemmas annotate_eval =
  Document_def getNumViews_def getPropertyDbPath_def count_views_def guid_key_def Let_def
  view_children_def is_geometry_def view_parent_def shared_db_def db_nodes_def urn_string_def
  object_set_def Object_prototype_keys_def

lemmas string_eval =
  indexOf_def lastIndexOf_def occurrences_def substr_def replace_first_def upt_rec

lemma example_nested_count:
  "getNumViews (Document example_globals (Some nested_manifest) ''doc'' None) nested_inner =
     Count 0"
  by (simp add: annotate_eval example_items)

lemma example_inherited_count:
  "getNumViews (Document example_globals
       (Some (example_geometry ''__proto__'' [example_view ''v''])) ''doc'' None)
     (example_geometry ''__proto__'' [example_view ''v'']) = Inherited ''__proto__''"
  "getNumViews (Document example_globals (Some (example_geometry ''toString'' [])) ''doc'' None)
     (example_geometry ''toString'' []) = Inherited ''toString''"
  "getNumViews (Document example_globals
       (Some (example_geometry ''toString'' [example_view ''v''])) ''doc'' None)
     (example_geometry ''toString'' [example_view ''v'']) = Count 1"
  by (simp_all add: annotate_eval example_items)

lemma example_visited:
  "visited example_manifest =
     [example_manifest,
      Item (bare\<lparr> item_type := Some ''folder'', role := Some ''viewable'', guid := Some ''f1'' \<rparr>)
          [example_sheet, example_scene],
      example_sheet, example_scene,
      example_db ''a/objects.db'', example_db ''b/objects.db'']"
  by (simp add: example_items view_parent_def shared_db_def)

lemma example_db_nodes:
  "db_nodes example_manifest = [example_db ''a/objects.db'', example_db ''b/objects.db'']"
  by (simp add: annotate_eval example_items)

lemma example_property_db:
  "getPropertyDbPath (Document example_globals (Some example_manifest) ''doc'' None) = Some ''b/''"
  by (simp add: annotate_eval example_items example_globals_def string_eval)

lemma example_db_paths:
  "property_db_path example_globals ''a/objects.db'' = ''a/''"
  "property_db_path example_globals ''b/objects.db'' = ''b/''"
  by (simp_all add: property_db_path_def example_globals_def string_eval)

lemma no_later_occurrence:
  assumes "hd sep \<notin> set (tl sep @ b)" and "sep \<noteq> []"
  shows "\<forall>j>length a. \<not> occurs_at (a @ sep @ b) sep j"
proof (intro allI impI notI)
  fix j
  assume j: "length a < j" and o: "occurs_at (a @ sep @ b) sep j"
  obtain c t where sep: "sep = c # t" using assms(2) by (cases sep) auto
  from o have t: "take (length sep) (drop j (a @ sep @ b)) = sep"
    by (simp add: occurs_at_iff)
  have "drop j (a @ sep @ b) = drop (j - length a - 1) (t @ b)"
    using j by (simp add: sep drop_Cons')
  then have "take (Suc (length t)) (drop (j - length a - 1) (t @ b)) = c # t"
    using t by (simp add: sep)
  then have "c \<in> set (drop (j - length a - 1) (t @ b))"
    by (metis list.set_intros(1) in_set_takeD)
  then have "c \<in> set (t @ b)" by (rule in_set_dropD)
  then show False using assms(1) by (simp add: sep)
qed

subsection \<open>View counts\<close>

text \<open>
  C5, as the code has it. \<open>annotateViews\<close> does not walk below a geometry node that has
  children, nor below a shared property database. For every geometry node \<open>g\<close> that the
  walk reaches, whose guid is not the name of a property that every object inherits
  from \<open>Object.prototype\<close>, in a manifest where the geometry nodes reached have pairwise
  distinct guids, \<open>getNumViews(g)\<close> is the number of children of \<open>g\<close> of type \<open>view\<close> (0
  when \<open>g\<close> has no entry in the index).
\<close>

theorem getNumViews_visited_geometry:
  assumes "g \<in> set (visited rootItem)"
    and "is_geometry g"
    and "distinct (map guid_key (filter is_geometry (visited rootItem)))"
    and "guid_key g \<notin> set Object_prototype_keys"
  shows "getNumViews (Document G (Some rootItem) path acm) g = Count (length (view_children g))"
proof -
  have p: "guid_key g \<noteq> ''__proto__''"
    using assms(4) by (auto simp: Object_prototype_keys_def)
  have "myNumViews (Document G (Some rootItem) path acm) (guid_key g) =
          (if view_parent g then Some (length (view_children g)) else None)"
    unfolding Document_fields using assms(1-3) p by (simp add: foldl_num_step_at)
  moreover have "\<not> view_parent g \<Longrightarrow> length (view_children g) = 0"
    using assms(2) by (simp add: view_parent_def is_geometry_def view_children_def)
  ultimately show ?thesis using assms(4) by (simp add: getNumViews_def)
qed

theorem getNumViews_visited_geometry_witness:
  "example_scene \<in> set (visited example_manifest) \<and> is_geometry example_scene \<and>
   distinct (map guid_key (filter is_geometry (visited example_manifest))) \<and>
   guid_key example_scene \<notin> set Object_prototype_keys \<and>
   length (view_children example_scene) = 2 \<and>
   getNumViews (Document example_globals (Some example_manifest) ''doc'' None) example_scene =
     Count 2"
proof -
  have a: "example_scene \<in> set (visited example_manifest)"
    unfolding example_visited by simp
  have b: "is_geometry example_scene" by (simp add: is_geometry_def example_items)
  have c: "distinct (map guid_key (filter is_geometry (visited example_manifest)))"
    unfolding example_visited by (simp add: is_geometry_def guid_key_def example_items)
  have d: "length (view_children example_scene) = 2"
    by (simp add: view_children_def example_items)
  have e: "guid_key example_scene \<notin> set Object_prototype_keys"
    by (simp add: guid_key_def example_items Object_prototype_keys_def)
  show ?thesis
    using getNumViews_visited_geometry[OF a b c e, of example_globals "''doc''" None] a b c d e
    by simp
qed


text \<open>
  C5 as stated speaks of every geometry node of the tree. A geometry node below another
  geometry node is never reached: its view is not counted. And for a geometry node whose
  guid is \<open>__proto__\<close> the count is not stored, and for one without children whose guid is
  \<open>toString\<close> nothing is stored: \<open>getNumViews\<close> then returns what the index object
  inherits under that name, which is not a number.
\<close>

theorem getNumViews_nested_geometry_counterexample:
  "nested_inner \<in> set (preorder nested_manifest) \<and>
   item_type (attrs nested_inner) = Some ''geometry'' \<and>
   distinct (map guid_key (preorder nested_manifest)) \<and>
   length (view_children nested_inner) = 1 \<and>
   getNumViews (Document example_globals (Some nested_manifest) ''doc'' None) nested_inner =
     Count 0 \<and>
   length (view_children (example_geometry ''__proto__'' [example_view ''v''])) = 1 \<and>
   getNumViews (Document example_globals
       (Some (example_geometry ''__proto__'' [example_view ''v''])) ''doc'' None)
     (example_geometry ''__proto__'' [example_view ''v'']) = Inherited ''__proto__'' \<and>
   length (view_children (example_geometry ''toString'' [])) = 0 \<and>
   getNumViews (Document example_globals (Some (example_geometry ''toString'' [])) ''doc'' None)
     (example_geometry ''toString'' []) = Inherited ''toString''"
  using example_nested_count example_inherited_count
  by (simp add: example_items view_children_def guid_key_def)

subsection \<open>The shared property database\<close>

text \<open>
  C2, as the code has it. Every node that the walk of \<open>annotateViews\<close> reaches, that is
  not a geometry node with children, and whose mime is \<open>application/autodesk-db\<close> with a
  non-empty urn, assigns \<open>myPropertyDb\<close>: the value after construction comes from the
  last such node, and stays \<open>null\<close> when there is none (also for a \<open>null\<close> manifest). The
  value is the prefix of the urn up to and including its last separator, \<open>%2F\<close> when the
  urn starts with the OSS prefix and \<open>/\<close> otherwise, for a urn that contains that
  separator.
\<close>

theorem propertyDb_last_visited:
  "getPropertyDbPath (Document G (Some rootItem) path acm) =
     (if db_nodes rootItem = [] then None
      else Some (property_db_path G (urn_string (last (db_nodes rootItem))))) \<and>
   getPropertyDbPath (Document G None path acm) = None \<and>
   (\<forall>u a b. take (length (OSS_PREFIX G)) u = OSS_PREFIX G \<and> u = a @ ''%2F'' @ b \<and>
        (\<forall>j>length a. \<not> occurs_at u ''%2F'' j) \<longrightarrow>
        property_db_path G u = a @ ''%2F'') \<and>
   (\<forall>u a b. take (length (OSS_PREFIX G)) u \<noteq> OSS_PREFIX G \<and> u = a @ ''/'' @ b \<and>
        (\<forall>j>length a. \<not> occurs_at u ''/'' j) \<longrightarrow>
        property_db_path G u = a @ ''/'')"
proof (intro conjI allI impI)
  show "getPropertyDbPath (Document G (Some rootItem) path acm) =
     (if db_nodes rootItem = [] then None
      else Some (property_db_path G (urn_string (last (db_nodes rootItem)))))"
    unfolding getPropertyDbPath_def Document_fields foldl_db_step db_nodes_def by simp
  show "getPropertyDbPath (Document G None path acm) = None"
    by (simp add: getPropertyDbPath_def Document_fields)
next
  fix u a b
  assume h: "take (length (OSS_PREFIX G)) u = OSS_PREFIX G \<and> u = a @ ''%2F'' @ b \<and>
        (\<forall>j>length a. \<not> occurs_at u ''%2F'' j)"
  then have h1: "take (length (OSS_PREFIX G)) u = OSS_PREFIX G" and h2: "u = a @ ''%2F'' @ b"
    and h3: "\<forall>j>length a. \<not> occurs_at u ''%2F'' j" by blast+
  have "indexOf u (OSS_PREFIX G) = 0" using h1 by (simp only: indexOf_zero_iff)
  moreover have "substr u 0 (Some (lastIndexOf u ''%2F'' + int (length ''%2F''))) = a @ ''%2F''"
    using h2 h3 by (rule property_db_path_separator)
  ultimately show "property_db_path G u = a @ ''%2F''"
    by (simp add: property_db_path_def)
next
  fix u a b
  assume h: "take (length (OSS_PREFIX G)) u \<noteq> OSS_PREFIX G \<and> u = a @ ''/'' @ b \<and>
        (\<forall>j>length a. \<not> occurs_at u ''/'' j)"
  then have h1: "take (length (OSS_PREFIX G)) u \<noteq> OSS_PREFIX G" and h2: "u = a @ ''/'' @ b"
    and h3: "\<forall>j>length a. \<not> occurs_at u ''/'' j" by blast+
  have "indexOf u (OSS_PREFIX G) \<noteq> 0" using h1 by (simp add: indexOf_zero_iff)
  moreover have "substr u 0 (Some (lastIndexOf u ''/'' + int (length ''/''))) = a @ ''/''"
    using h2 h3 by (rule property_db_path_separator)
  ultimately show "property_db_path G u = a @ ''/''"
    by (simp add: property_db_path_def)
qed

theorem propertyDb_last_visited_witness:
  "db_nodes example_manifest = [example_db ''a/objects.db'', example_db ''b/objects.db''] \<and>
   getPropertyDbPath (Document example_globals (Some example_manifest) ''doc'' None) =
     Some (property_db_path example_globals ''b/objects.db'') \<and>
   property_db_path example_globals (''b'' @ ''/'' @ ''objects.db'') = ''b'' @ ''/'' \<and>
   property_db_path example_globals
     (''urn:adsk.objects:os.object:bucket%2Fa'' @ ''%2F'' @ ''objects.db'') =
     ''urn:adsk.objects:os.object:bucket%2Fa'' @ ''%2F''"
proof -
  have u: "urn_string (example_db ''b/objects.db'') = ''b/objects.db''"
    by (simp add: urn_string_def example_db_def bare_def)
  have l1: "\<forall>j>length ''b''. \<not> occurs_at (''b'' @ ''/'' @ ''objects.db'') ''/'' j"
    by (rule no_later_occurrence) simp_all
  have l2: "\<forall>j>length ''urn:adsk.objects:os.object:bucket%2Fa''.
      \<not> occurs_at (''urn:adsk.objects:os.object:bucket%2Fa'' @ ''%2F'' @ ''objects.db'') ''%2F'' j"
    by (rule no_later_occurrence) simp_all
  have p1: "take (length (OSS_PREFIX example_globals)) (''b'' @ ''/'' @ ''objects.db'')
      \<noteq> OSS_PREFIX example_globals"
    by (simp add: example_globals_def)
  have p2: "take (length (OSS_PREFIX example_globals))
      (''urn:adsk.objects:os.object:bucket%2Fa'' @ ''%2F'' @ ''objects.db'')
      = OSS_PREFIX example_globals"
    by (simp add: example_globals_def)
  have t: "getPropertyDbPath (Document example_globals (Some example_manifest) ''doc'' None) =
     (if db_nodes example_manifest = [] then None
      else Some (property_db_path example_globals (urn_string (last (db_nodes example_manifest)))))"
    and s1: "property_db_path example_globals (''b'' @ ''/'' @ ''objects.db'') = ''b'' @ ''/''"
    and s2: "property_db_path example_globals
       (''urn:adsk.objects:os.object:bucket%2Fa'' @ ''%2F'' @ ''objects.db'') =
       ''urn:adsk.objects:os.object:bucket%2Fa'' @ ''%2F''"
    using propertyDb_last_visited[of example_globals example_manifest "''doc''" None] l1 l2 p1 p2
    by blast+
  show ?thesis using t s1 s2 u example_db_nodes by simp
qed


text \<open>
  C2 as stated lets the first matching node in pre-order win. In the example manifest
  the first is \<open>a/objects.db\<close>, and the constructor leaves the path of the second.
\<close>

theorem propertyDb_first_match_counterexample:
  "find shared_db (preorder example_manifest) = Some (example_db ''a/objects.db'') \<and>
   urn (attrs (example_db ''a/objects.db'')) = Some ''a/objects.db'' \<and>
   property_db_path example_globals ''a/objects.db'' = ''a/'' \<and>
   getPropertyDbPath (Document example_globals (Some example_manifest) ''doc'' None) = Some ''b/'' \<and>
   getPropertyDbPath (Document example_globals (Some example_manifest) ''doc'' None) \<noteq>
     Some (property_db_path example_globals ''a/objects.db'')"
proof -
  have "find shared_db (preorder example_manifest) = Some (example_db ''a/objects.db'')"
    by (simp add: shared_db_def example_items)
  moreover have "urn (attrs (example_db ''a/objects.db'')) = Some ''a/objects.db''"
    by (simp add: example_items)
  ultimately show ?thesis
    using example_property_db example_db_paths by simp
qed




subsection \<open>getFullPath\<close>

lemma substr_from:
  "k \<le> length s \<Longrightarrow> substr s (int k) None = drop k s"
  by (auto simp: substr_def Let_def)

lemma first_char_occurrence:
  assumes "c \<in> set s"
  shows "occurs_at s [c] (length (takeWhile (\<lambda>x. x \<noteq> c) s))"
    and "\<forall>j<length (takeWhile (\<lambda>x. x \<noteq> c) s). \<not> occurs_at s [c] j"
proof -
  let ?t = "takeWhile (\<lambda>x. x \<noteq> c) s"
  have "dropWhile (\<lambda>x. x \<noteq> c) s \<noteq> []" using assms by (simp add: dropWhile_eq_Nil_conv)
  then obtain r where d: "dropWhile (\<lambda>x. x \<noteq> c) s = c # r"
    by (metis (mono_tags, lifting) hd_dropWhile list.collapse)
  have "s = ?t @ [c] @ r" using d by (metis takeWhile_dropWhile_id append_Cons append_Nil)
  then show "occurs_at s [c] (length ?t)" unfolding occurs_at_def by blast
  show "\<forall>j<length ?t. \<not> occurs_at s [c] j"
  proof (intro allI impI notI)
    fix j
    assume j: "j < length ?t" and o: "occurs_at s [c] j"
    from o obtain a b where ab: "s = a @ [c] @ b" "length a = j" by (auto simp: occurs_at_def)
    then have "s ! j = c" by (simp add: nth_append)
    moreover have "?t ! j = s ! j" using j by (rule takeWhile_nth)
    moreover have "?t ! j \<in> set ?t" using j by simp
    ultimately have "c \<in> set ?t" by simp
    then show False using set_takeWhileD by fastforce
  qed
qed

lemma offline_suffix:
  assumes "c \<in> set s"
  shows "substr s (indexOf s [c]) None = dropWhile (\<lambda>x. x \<noteq> c) s"
proof -
  let ?k = "length (takeWhile (\<lambda>x. x \<noteq> c) s)"
  have "indexOf s [c] = int ?k"
    using first_char_occurrence[OF assms] by (intro indexOf_first(1)) auto
  moreover have "?k \<le> length s" by (rule length_takeWhile_le)
  ultimately have "substr s (indexOf s [c]) None = drop ?k s" by (simp add: substr_from)
  then show ?thesis by (simp add: dropWhile_eq_drop)
qed

lemma replace_prefix:
  assumes "take (length m) s = m"
  shows "replace_first s m [] = drop (length m) s"
proof -
  have "occurs_at s m 0" using assms by (simp add: occurs_at_iff)
  then have "replace_first s m [] = take 0 s @ [] @ drop (0 + length m) s"
    by (intro indexOf_first(2)) auto
  then show ?thesis by simp
qed

lemma replace_first_split:
  assumes "p = a @ m @ b" and "\<forall>j<length a. \<not> occurs_at p m j"
  shows "replace_first p m [] = a @ b"
proof -
  have "occurs_at p m (length a)" using assms(1) by (auto simp: occurs_at_def)
  then have "replace_first p m [] = take (length a) p @ [] @ drop (length a + length m) p"
    using assms(2) by (intro indexOf_first(2)) auto
  then show ?thesis using assms(1) by simp
qed

lemma starts_with_urn: "indexOf s ''urn'' = 0 \<longleftrightarrow> take 3 s = ''urn''"
  using indexOf_zero_iff[of s "''urn''"] by (simp add: eval_nat_numeral)

lemma starts_with_file: "indexOf s ''$file$'' = 0 \<longleftrightarrow> take 6 s = ''$file$''"
  using indexOf_zero_iff[of s "''$file$''"] by (simp add: eval_nat_numeral)

lemma replace_file_marker: "take 6 s = ''$file$'' \<Longrightarrow> replace_first s ''$file$'' [] = drop 6 s"
  using replace_prefix[of "''$file$''" s] by (simp add: eval_nat_numeral)

lemma example_full_path_query:
  "getFullPath example_globals (Document example_globals None ''/models/bubble.json?v=2'' None)
     (Some ''$file$/sheet.f2d'') = Inr (Some ''/models?v=2/sheet.f2d'')"
  by (simp add: getFullPath_def Document_def example_globals_def string_eval)

lemma example_spec_path_query:
  "resolveFullPath_spec example_globals
     (Document example_globals None ''/models/bubble.json?v=2'' None)
     (Some ''$file$/sheet.f2d'') = Inr (Some ''$file$/sheet.f2d'')"
  by (simp add: resolveFullPath_spec_def Document_def example_globals_def ends_with_def)

lemma example_first_bubble:
  "\<forall>j<length ''/models''. \<not> occurs_at ''/models/bubble.json'' ''/bubble.json'' j"
  by (auto simp: occurs_at_iff less_Suc_eq eval_nat_numeral)

text \<open>
  C6, as the code has it. \<open>getFullPath\<close> applies the first matching rule of: (1) a
  missing or empty urn is returned unchanged; (2) in offline mode the result is the
  decoded local prefix followed by the urn from its first \<open>/\<close> on, for a urn that
  contains a \<open>/\<close> (and the URIError of the decoding, if it raises one); (3) a urn
  starting with \<open>urn\<close> becomes \<open>VIEWING_URL/items/urn\<close>; (4) a urn starting with \<open>$file$\<close>,
  when the document's path contains \<open>/bubble.json\<close>, becomes the path without its first
  \<open>/bubble.json\<close>, followed by the urn without the marker; otherwise the urn is
  returned unchanged.
\<close>

theorem getFullPath_rules:
  "getFullPath G self None = Inr None \<and>
   getFullPath G self (Some []) = Inr (Some []) \<and>
   (\<forall>s err. s \<noteq> [] \<and> offline G \<and> decodeURIComponent G (offlineResourcePrefix G) = Inl err \<longrightarrow>
      getFullPath G self (Some s) = Inl err) \<and>
   (\<forall>s pre. s \<noteq> [] \<and> offline G \<and> decodeURIComponent G (offlineResourcePrefix G) = Inr pre \<and>
      CHR ''/'' \<in> set s \<longrightarrow>
      getFullPath G self (Some s) = Inr (Some (pre @ dropWhile (\<lambda>c. c \<noteq> CHR ''/'') s))) \<and>
   (\<forall>s. s \<noteq> [] \<and> \<not> offline G \<and> take 3 s = ''urn'' \<longrightarrow>
      getFullPath G self (Some s) = Inr (Some (VIEWING_URL G @ ''/items/'' @ s))) \<and>
   (\<forall>s a b. s \<noteq> [] \<and> \<not> offline G \<and> take 3 s \<noteq> ''urn'' \<and> take 6 s = ''$file$'' \<and>
      myPath self = a @ ''/bubble.json'' @ b \<and>
      (\<forall>j<length a. \<not> occurs_at (myPath self) ''/bubble.json'' j) \<longrightarrow>
      getFullPath G self (Some s) = Inr (Some (a @ b @ drop 6 s))) \<and>
   (\<forall>s. s \<noteq> [] \<and> \<not> offline G \<and> take 3 s \<noteq> ''urn'' \<and>
      \<not> (take 6 s = ''$file$'' \<and> (\<exists>a b. myPath self = a @ ''/bubble.json'' @ b)) \<longrightarrow>
      getFullPath G self (Some s) = Inr (Some s))"
proof (intro conjI allI impI)
  show "getFullPath G self None = Inr None" by (simp add: getFullPath_def)
  show "getFullPath G self (Some []) = Inr (Some [])" by (simp add: getFullPath_def)
next
  fix s :: string and err
  assume "s \<noteq> [] \<and> offline G \<and> decodeURIComponent G (offlineResourcePrefix G) = Inl err"
  then show "getFullPath G self (Some s) = Inl err" by (simp add: getFullPath_def)
next
  fix s :: string and pre
  assume h: "s \<noteq> [] \<and> offline G \<and> decodeURIComponent G (offlineResourcePrefix G) = Inr pre \<and>
      CHR ''/'' \<in> set s"
  then have "substr s (indexOf s ''/'') None = dropWhile (\<lambda>c. c \<noteq> CHR ''/'') s"
    by (intro offline_suffix) simp
  then show "getFullPath G self (Some s) = Inr (Some (pre @ dropWhile (\<lambda>c. c \<noteq> CHR ''/'') s))"
    using h by (simp add: getFullPath_def)
next
  fix s :: string
  assume h: "s \<noteq> [] \<and> \<not> offline G \<and> take 3 s = ''urn''"
  then have "indexOf s ''urn'' = 0" by (simp add: starts_with_urn)
  then show "getFullPath G self (Some s) = Inr (Some (VIEWING_URL G @ ''/items/'' @ s))"
    using h by (simp add: getFullPath_def)
next
  fix s :: string and a b
  assume h: "s \<noteq> [] \<and> \<not> offline G \<and> take 3 s \<noteq> ''urn'' \<and> take 6 s = ''$file$'' \<and>
      myPath self = a @ ''/bubble.json'' @ b \<and>
      (\<forall>j<length a. \<not> occurs_at (myPath self) ''/bubble.json'' j)"
  then have u: "indexOf s ''urn'' \<noteq> 0" and f: "indexOf s ''$file$'' = 0"
    by (simp_all add: starts_with_urn starts_with_file)
  have c: "indexOf (myPath self) ''/bubble.json'' \<noteq> - 1"
    using h indexOf_found_iff by blast
  have r1: "replace_first (myPath self) ''/bubble.json'' [] = a @ b"
    using h by (intro replace_first_split) auto
  have r2: "replace_first s ''$file$'' [] = drop 6 s"
    using h by (intro replace_file_marker) simp
  show "getFullPath G self (Some s) = Inr (Some (a @ b @ drop 6 s))"
    using h u f c r1 r2 by (simp add: getFullPath_def)
next
  fix s :: string
  assume h: "s \<noteq> [] \<and> \<not> offline G \<and> take 3 s \<noteq> ''urn'' \<and>
      \<not> (take 6 s = ''$file$'' \<and> (\<exists>a b. myPath self = a @ ''/bubble.json'' @ b))"
  then have u: "indexOf s ''urn'' \<noteq> 0" by (simp add: starts_with_urn)
  have "\<not> (indexOf s ''$file$'' = 0 \<and> indexOf (myPath self) ''/bubble.json'' \<noteq> - 1)"
    using h by (simp add: starts_with_file indexOf_found_iff)
  moreover have "s \<noteq> []" "\<not> offline G" using h by simp_all
  ultimately show "getFullPath G self (Some s) = Inr (Some s)"
    using u by (auto simp: getFullPath_def)
qed

theorem getFullPath_rules_witness:
  "getFullPath (example_globals\<lparr>offline := True\<rparr>)
     (Document example_globals None ''/models/bubble.json'' None) (Some ''urn:scene/0.svf'')
     = Inr (Some ''data/0.svf'') \<and>
   getFullPath example_globals
     (Document example_globals None ''/models/bubble.json'' None) (Some ''urn:scene/0.svf'')
     = Inr (Some ''https://viewing.example/v1/items/urn:scene/0.svf'') \<and>
   getFullPath example_globals
     (Document example_globals None ''/models/bubble.json'' None) (Some ''$file$/sheet.f2d'')
     = Inr (Some ''/models/sheet.f2d'') \<and>
   getFullPath example_globals
     (Document example_globals None ''http://host/manifest'' None) (Some ''$file$/sheet.f2d'')
     = Inr (Some ''$file$/sheet.f2d'')"
proof -
  let ?off = "example_globals\<lparr>offline := True\<rparr>"
  let ?doc = "Document example_globals None ''/models/bubble.json'' None"
  let ?other = "Document example_globals None ''http://host/manifest'' None"
  have p: "myPath ?doc = ''/models'' @ ''/bubble.json'' @ []"
    "myPath ?other = ''http://host/manifest''"
    by (simp_all add: Document_def)
  have r2: "getFullPath ?off ?doc (Some ''urn:scene/0.svf'') =
      Inr (Some (''data'' @ dropWhile (\<lambda>c. c \<noteq> CHR ''/'') ''urn:scene/0.svf''))"
  proof -
    have "''urn:scene/0.svf'' \<noteq> [] \<and> offline ?off \<and>
        decodeURIComponent ?off (offlineResourcePrefix ?off) = Inr ''data'' \<and>
        CHR ''/'' \<in> set ''urn:scene/0.svf''"
      by (simp add: example_globals_def)
    then show ?thesis using getFullPath_rules[of ?off ?doc] by blast
  qed
  have r3: "getFullPath example_globals ?doc (Some ''urn:scene/0.svf'') =
      Inr (Some (VIEWING_URL example_globals @ ''/items/'' @ ''urn:scene/0.svf''))"
  proof -
    have "''urn:scene/0.svf'' \<noteq> [] \<and> \<not> offline example_globals \<and>
        take 3 ''urn:scene/0.svf'' = ''urn''"
      by (simp add: example_globals_def)
    then show ?thesis using getFullPath_rules[of example_globals ?doc] by blast
  qed
  have r4: "getFullPath example_globals ?doc (Some ''$file$/sheet.f2d'') =
      Inr (Some (''/models'' @ [] @ drop 6 ''$file$/sheet.f2d''))"
  proof -
    have "''$file$/sheet.f2d'' \<noteq> [] \<and> \<not> offline example_globals \<and>
        take 3 ''$file$/sheet.f2d'' \<noteq> ''urn'' \<and> take 6 ''$file$/sheet.f2d'' = ''$file$'' \<and>
        myPath ?doc = ''/models'' @ ''/bubble.json'' @ [] \<and>
        (\<forall>j<length ''/models''. \<not> occurs_at (myPath ?doc) ''/bubble.json'' j)"
      using example_first_bubble by (simp add: example_globals_def Document_def)
    then show ?thesis using getFullPath_rules[of example_globals ?doc] by blast
  qed
  have r5: "getFullPath example_globals ?other (Some ''$file$/sheet.f2d'') =
      Inr (Some ''$file$/sheet.f2d'')"
  proof -
    have "\<not> (\<exists>a b. ''http://host/manifest'' = a @ ''/bubble.json'' @ b)"
      using indexOf_found_iff[of "''http://host/manifest''" "''/bubble.json''"]
      by (simp add: string_eval)
    then have "''$file$/sheet.f2d'' \<noteq> [] \<and> \<not> offline example_globals \<and>
        take 3 ''$file$/sheet.f2d'' \<noteq> ''urn'' \<and>
        \<not> (take 6 ''$file$/sheet.f2d'' = ''$file$'' \<and>
           (\<exists>a b. myPath ?other = a @ ''/bubble.json'' @ b))"
      by (simp add: example_globals_def Document_def)
    then show ?thesis using getFullPath_rules[of example_globals ?other] by blast
  qed
  show ?thesis using r2 r3 r4 r5 by (simp add: example_globals_def)
qed


text \<open>
  C6 as stated asks in rule (4) that the document's path ends in the manifest file name.
  The code tests that the path contains \<open>/bubble.json\<close>: for a path with a query string
  the urn is rewritten, where the stated rules return it unchanged.
\<close>

theorem getFullPath_path_contains_counterexample:
  "\<not> ends_with ''/models/bubble.json?v=2'' ''/bubble.json'' \<and>
   \<not> ends_with ''/models/bubble.json?v=2'' ''bubble.json'' \<and>
   getFullPath example_globals (Document example_globals None ''/models/bubble.json?v=2'' None)
     (Some ''$file$/sheet.f2d'') = Inr (Some ''/models?v=2/sheet.f2d'') \<and>
   getFullPath example_globals (Document example_globals None ''/models/bubble.json?v=2'' None)
     (Some ''$file$/sheet.f2d'') \<noteq>
   resolveFullPath_spec example_globals
     (Document example_globals None ''/models/bubble.json?v=2'' None) (Some ''$file$/sheet.f2d'')"
  unfolding example_full_path_query example_spec_path_query
  by (simp add: ends_with_def)




subsection \<open>getViewablePath\<close>

lemma foldl_filter_step:
  "foldl (\<lambda>acc c. if P c then acc @ [c] else acc) a cs = a @ filter P cs"
  by (induction cs arbitrary: a) simp_all

lemma getSubItems_direct:
  "getSubItems it properties False = filter (\<lambda>c. hasProperties c properties) (children it)"
  by (cases it) (simp add: Let_def foldl_filter_step)

lemma hasProperties_role:
  "hasProperties c [(''role'', JStr r)] = (role (attrs c) = Some r)"
  by (cases "role (attrs c)") (auto simp: item_prop_def strict_eq_def)

lemma hasProperties_mime:
  "hasProperties c [(''mime'', JStr m)] = (mime (attrs c) = Some m)"
  by (cases "mime (attrs c)") (auto simp: item_prop_def strict_eq_def)

lemma direct_by_role:
  "getSubItemsWithProperties (Some it) [(''role'', JStr r)] False =
     filter (\<lambda>c. role (attrs c) = Some r) (children it)"
  by (simp add: getSubItemsWithProperties_def getSubItems_direct hasProperties_role
        del: hasProperties.simps)

lemma direct_by_mime:
  "getSubItemsWithProperties (Some it) [(''mime'', JStr m)] False =
     filter (\<lambda>c. mime (attrs c) = Some m) (children it)"
  by (simp add: getSubItemsWithProperties_def getSubItems_direct hasProperties_mime
        del: hasProperties.simps)

lemma getLeafletParams_ok:
  assumes "resolution (attrs l) = Some res"
  shows "fst (getLeafletParams G out it l) = None"
    and "opt_urlPattern (snd (getLeafletParams G out it l)) = urn (attrs l)"
    and "opt_tileSize (snd (getLeafletParams G out it l)) =
           Some (case tileSize (attrs l) of None \<Rightarrow> 512 | Some t \<Rightarrow> if t \<noteq> 0 then t else 512)"
    and "opt_texWidth (snd (getLeafletParams G out it l)) = nth_opt res 0"
    and "opt_texHeight (snd (getLeafletParams G out it l)) = nth_opt res 1"
    and "opt_paperWidth (snd (getLeafletParams G out it l)) = paperWidth (attrs l)"
    and "opt_paperHeight (snd (getLeafletParams G out it l)) = paperHeight (attrs l)"
    and "opt_paperUnits (snd (getLeafletParams G out it l)) = paperUnits (attrs l)"
    and "opt_levelOffset (snd (getLeafletParams G out it l)) =
           Some (computeLevelOffset G
             (case tileSize (attrs l) of None \<Rightarrow> 512 | Some t \<Rightarrow> if t \<noteq> 0 then t else 512))"
  using assms
  by (simp_all add: getLeafletParams_def Let_def split: list.splits)

lemmas viewable_eval =
  geometryViewablePath_def getSubItemsWithProperties_def item_prop_def strict_eq_def Let_def
  getLeafletParams_def first_path_def getFullPath_def example_globals_def nth_opt_def
  no_options_def example_document_def Document_def

lemma example_sheet_path:
  "getViewablePath example_globals example_document example_sheet (Some no_options) =
     Some (Inr (Some ''sheet/tiles/{z}/{x}_{y}.jpg''),
           Some \<lparr> opt_urlPattern = Some ''sheet/tiles/{z}/{x}_{y}.jpg'',
                  opt_tileSize = Some 512, opt_texWidth = Some 4096,
                  opt_texHeight = Some 2048, opt_paperWidth = Some 17,
                  opt_paperHeight = Some 11, opt_paperUnits = Some ''in'',
                  opt_levelOffset = Some 9, opt_maxLevel = Some (Number 3) \<rparr>)"
  by (subst getViewablePath.simps) (simp add: example_items viewable_eval string_eval)

lemma example_vector_path:
  "getFullPath example_globals example_document (urn (attrs example_vector)) =
     Inr (Some ''sheet/primaryGraphics.f2d'')"
  by (simp add: example_items viewable_eval string_eval)

text \<open>
  C1, as the code has it. For an item of type \<open>geometry\<close> and role \<open>2d\<close> whose first child
  of role \<open>leaflet\<close> is \<open>l\<close>, with a \<open>resolution\<close> array, \<open>getViewablePath\<close> called with
  load options fills them from \<open>l\<close> and returns the full path of the urn of \<open>l\<close>; without
  load options it returns the same path. The vector (f2d) and tile-root lookups run only
  when there is no leaflet child.
\<close>

theorem getViewablePath_leaflet_first:
  assumes "item_type (attrs it) = Some ''geometry''"
    and "role (attrs it) = Some ''2d''"
    and "filter (\<lambda>c. role (attrs c) = Some ''leaflet'') (children it) = l # ls"
    and "resolution (attrs l) = Some res"
  shows "getViewablePath G self it (Some out) =
           Some (getFullPath G self (urn (attrs l)), Some (snd (getLeafletParams G out it l))) \<and>
         getViewablePath G self it None = Some (getFullPath G self (urn (attrs l)), None) \<and>
         opt_urlPattern (snd (getLeafletParams G out it l)) = urn (attrs l) \<and>
         opt_tileSize (snd (getLeafletParams G out it l)) =
           Some (case tileSize (attrs l) of None \<Rightarrow> 512 | Some t \<Rightarrow> if t \<noteq> 0 then t else 512) \<and>
         opt_texWidth (snd (getLeafletParams G out it l)) = nth_opt res 0 \<and>
         opt_texHeight (snd (getLeafletParams G out it l)) = nth_opt res 1 \<and>
         opt_paperWidth (snd (getLeafletParams G out it l)) = paperWidth (attrs l) \<and>
         opt_paperHeight (snd (getLeafletParams G out it l)) = paperHeight (attrs l) \<and>
         opt_paperUnits (snd (getLeafletParams G out it l)) = paperUnits (attrs l)"
proof -
  have e: "fst (getLeafletParams G out it l) = None"
    using assms(4) by (rule getLeafletParams_ok)
  obtain out1 where g: "getLeafletParams G out it l = (None, out1)"
    using e by (cases "getLeafletParams G out it l") simp
  have a: "geometryViewablePath G self it (Some out) =
        (getFullPath G self (urn (attrs l)), Some (snd (getLeafletParams G out it l)))"
    using assms(2,3) g
    by (simp add: geometryViewablePath_def direct_by_role first_path_def Let_def)
  have b: "geometryViewablePath G self it None = (getFullPath G self (urn (attrs l)), None)"
    using assms(2,3)
    by (simp add: geometryViewablePath_def direct_by_role first_path_def Let_def)
  have "getViewablePath G self it (Some out) =
           Some (getFullPath G self (urn (attrs l)), Some (snd (getLeafletParams G out it l)))"
    by (subst getViewablePath.simps) (simp add: assms(1) a)
  moreover have "getViewablePath G self it None = Some (getFullPath G self (urn (attrs l)), None)"
    by (subst getViewablePath.simps) (simp add: assms(1) b)
  ultimately show ?thesis using getLeafletParams_ok[OF assms(4), of G out it] by simp
qed

theorem getViewablePath_leaflet_first_witness:
  "item_type (attrs example_sheet) = Some ''geometry'' \<and>
   role (attrs example_sheet) = Some ''2d'' \<and>
   filter (\<lambda>c. role (attrs c) = Some ''leaflet'') (children example_sheet) = [example_leaflet] \<and>
   resolution (attrs example_leaflet) = Some [4096, 2048] \<and>
   getViewablePath example_globals example_document example_sheet (Some no_options) =
     Some (getFullPath example_globals example_document (urn (attrs example_leaflet)),
           Some (snd (getLeafletParams example_globals no_options example_sheet example_leaflet))) \<and>
   getFullPath example_globals example_document (urn (attrs example_leaflet)) =
     Inr (Some ''sheet/tiles/{z}/{x}_{y}.jpg'') \<and>
   opt_texWidth (snd (getLeafletParams example_globals no_options example_sheet example_leaflet))
     = Some 4096"
proof -
  have a: "item_type (attrs example_sheet) = Some ''geometry''"
    and b: "role (attrs example_sheet) = Some ''2d''"
    and c: "filter (\<lambda>c. role (attrs c) = Some ''leaflet'') (children example_sheet) =
             example_leaflet # []"
    and d: "resolution (attrs example_leaflet) = Some [4096, 2048]"
    by (simp_all add: example_items)
  have p: "getFullPath example_globals example_document (urn (attrs example_leaflet)) =
     Inr (Some ''sheet/tiles/{z}/{x}_{y}.jpg'')"
    by (simp add: example_items viewable_eval string_eval)
  show ?thesis
    using getViewablePath_leaflet_first[OF a b c d, of example_globals example_document no_options]
      a b c d p
    by (simp add: nth_opt_def)
qed


text \<open>
  C1 as stated returns the path of the f2d child. In the example sheet, which has a
  leaflet child and an f2d child, the path returned is the leaflet's.
\<close>

theorem getViewablePath_leaflet_counterexample:
  "item_type (attrs example_sheet) = Some ''geometry'' \<and>
   role (attrs example_sheet) = Some ''2d'' \<and>
   children example_sheet = [example_leaflet, example_vector, example_zip, example_view ''v1''] \<and>
   role (attrs example_leaflet) = Some ''leaflet'' \<and>
   mime (attrs example_vector) = Some ''application/autodesk-f2d'' \<and>
   map_option fst
     (getViewablePath example_globals example_document example_sheet (Some no_options)) =
     Some (Inr (Some ''sheet/tiles/{z}/{x}_{y}.jpg'')) \<and>
   map_option fst
     (getViewablePath example_globals example_document example_sheet (Some no_options)) \<noteq>
     Some (getFullPath example_globals example_document (urn (attrs example_vector)))"
  unfolding example_sheet_path example_vector_path
  by (simp add: example_items)


subsection \<open>getMessages\<close>

lemma example_parents:
  "parent example_document [0, 0] = Some [0]"
  "parent example_document [0] = Some []"
  "parent example_document [] = None"
  by (simp_all add: example_document_def annotate_eval example_items)

text \<open>
  C4. In a browser the global \<open>parent\<close> is a window, never the root of the manifest:
  with \<open>excludeGlobal\<close> set, the walk from the example sheet still runs up to the root
  and returns the root's message as well, exactly as without the flag. (The loop tests
  \<open>parent === root\<close> where \<open>current.parent\<close> was meant.)
\<close>

theorem getMessages_excludeGlobal_includes_root:
  "global_parent example_globals = Some OtherObject \<and>
   getMessages example_globals example_document (Some [0, 0]) True =
     Some (Inr [\<lparr> msg_type = ''warning'', msg_text = ''sheet'' \<rparr>,
                \<lparr> msg_type = ''error'', msg_text = ''global'' \<rparr>]) \<and>
   getMessages example_globals example_document (Some [0, 0]) False =
     Some (Inr [\<lparr> msg_type = ''warning'', msg_text = ''sheet'' \<rparr>,
                \<lparr> msg_type = ''error'', msg_text = ''global'' \<rparr>])"
proof -
  have g: "global_parent example_globals = Some OtherObject"
    by (simp add: example_globals_def)
  have n0: "node_at example_document [] = Some example_manifest"
    and n1: "\<exists>n. node_at example_document [0] = Some n \<and> messages (attrs n) = None"
    and n2: "node_at example_document [0, 0] = Some example_sheet"
    by (simp_all add: node_at_def example_document_def annotate_eval example_items)
  obtain n where n: "node_at example_document [0] = Some n" "messages (attrs n) = None"
    using n1 by blast
  have m0: "messages (attrs example_manifest) = Some [\<lparr> msg_type = ''error'', msg_text = ''global'' \<rparr>]"
    and m2: "messages (attrs example_sheet) = Some [\<lparr> msg_type = ''warning'', msg_text = ''sheet'' \<rparr>]"
    by (simp_all add: example_items)
  have l: "getMessages_loop example_globals example_document e (Some [0, 0]) [] =
     Some (Inr [\<lparr> msg_type = ''warning'', msg_text = ''sheet'' \<rparr>,
                \<lparr> msg_type = ''error'', msg_text = ''global'' \<rparr>])" for e
    apply (subst getMessages_loop.simps)
    apply (simp add: g n2 m2 example_parents)
    apply (subst getMessages_loop.simps)
    apply (simp add: g n example_parents)
    apply (subst getMessages_loop.simps)
    apply (simp add: g n0 m0 example_parents)
    apply (subst getMessages_loop.simps)
    apply simp
    done
  show ?thesis using g l by (simp add: getMessages_def)
qed


end
